theory Spec2Isabelle
  imports Complex_Main "HOL-Library.Word"
begin

unbundle bit_operations_syntax

section \<open>The DShot frame\<close>

text \<open>
  \<^verbatim>\<open>dshot_frame_t\<close> is a union of a 16-bit value \<^verbatim>\<open>val\<close> with three bit-fields declared
  in the order \<^verbatim>\<open>crc : 4\<close>, \<^verbatim>\<open>telemetry : 1\<close>, \<^verbatim>\<open>throttle : 11\<close>. On the little-endian
  target the first declared field sits in the least significant bits, so \<^verbatim>\<open>crc\<close> is
  bits 0-3, \<^verbatim>\<open>telemetry\<close> is bit 4 and \<^verbatim>\<open>throttle\<close> is bits 5-15 of \<^verbatim>\<open>val\<close>.
  The model keeps the union as its \<^verbatim>\<open>val\<close> and reads and writes the fields through it.
\<close>

type_synonym dshot_frame_t = "16 word"

definition frame_crc :: "dshot_frame_t \<Rightarrow> 16 word" where
  "frame_crc f = take_bit 4 f"



text \<open>A store into a bit-field keeps the low bits of the stored value and leaves the
  other fields of the union as they were.\<close>

definition set_throttle :: "dshot_frame_t \<Rightarrow> 16 word \<Rightarrow> dshot_frame_t" where
  "set_throttle f x = (f AND 0x001F) OR push_bit 5 (take_bit 11 x)"

definition set_telemetry :: "dshot_frame_t \<Rightarrow> bool \<Rightarrow> dshot_frame_t" where
  "set_telemetry f b = (f AND 0xFFEF) OR (if b then 0x0010 else 0)"

definition set_crc :: "dshot_frame_t \<Rightarrow> 8 word \<Rightarrow> dshot_frame_t" where
  "set_crc f c = (f AND 0xFFF0) OR take_bit 4 (ucast c)"

text \<open>
  Lines 55-58 of \<^verbatim>\<open>make_dshot_frame\<close>: the XOR is computed on the promoted 16-bit value
  and stored into a \<^verbatim>\<open>uint8_t\<close>, which keeps its low byte; the inversion and the mask
  \<^verbatim>\<open>0xF0\<close> act on that byte.
\<close>

definition dshot_crc_byte :: "16 word \<Rightarrow> bool \<Rightarrow> 8 word" where
  "dshot_crc_byte val bidirectional =
     (let crc = (ucast (val XOR drop_bit 4 val XOR drop_bit 8 val) :: 8 word);
          crc = (if bidirectional then NOT crc else crc)
      in crc AND 0xF0)"

text \<open>Lines 37-60: the frame after the three field stores, before the byte swap.\<close>

definition dshot_frame_fields ::
  "dshot_frame_t \<Rightarrow> 16 word \<Rightarrow> bool \<Rightarrow> bool \<Rightarrow> dshot_frame_t" where
  "dshot_frame_fields frame throttle telemetry bidirectional =
     (let frame = set_throttle frame throttle;
          frame = set_telemetry frame telemetry;
          val = frame;
          crc = dshot_crc_byte val bidirectional
      in set_crc frame (drop_bit 4 crc))"

text \<open>Line 64: the two bytes of the value change places.\<close>

definition swap_bytes :: "16 word \<Rightarrow> 16 word" where
  "swap_bytes val = push_bit 8 (val AND 0xFF) OR drop_bit 8 (val AND 0xFF00)"

definition make_dshot_frame ::
  "dshot_frame_t \<Rightarrow> 16 word \<Rightarrow> bool \<Rightarrow> bool \<Rightarrow> dshot_frame_t" where
  "make_dshot_frame frame throttle telemetry bidirectional =
     swap_bytes (dshot_frame_fields frame throttle telemetry bidirectional)"

text \<open>
  The frame is handed to the byte-stream encoder as a buffer of \<^verbatim>\<open>sizeof(frame)\<close> = 2
  bytes. The target is little-endian (the source says so at the byte swap), so the
  buffer holds the low byte of \<^verbatim>\<open>val\<close> first.
\<close>

definition frame_buffer :: "dshot_frame_t \<Rightarrow> 8 word list" where
  "frame_buffer f = [ucast f, ucast (drop_bit 8 f)]"

subsection \<open>The reference CRC of the specification\<close>

text \<open>
  These two definitions follow the words of the specification, not the code: the payload
  is the 12-bit value \<^verbatim>\<open>(throttle << 1) | telemetry\<close>, and the CRC is the low nibble of
  \<^verbatim>\<open>payload XOR (payload >> 4) XOR (payload >> 8)\<close>, inverted before the nibble is taken
  iff the encoder is bidirectional.
\<close>

definition spec_payload :: "16 word \<Rightarrow> bool \<Rightarrow> 16 word" where
  "spec_payload t tel = push_bit 1 t OR (if tel then 1 else 0)"

definition spec_crc :: "16 word \<Rightarrow> bool \<Rightarrow> bool \<Rightarrow> 16 word" where
  "spec_crc t tel bidir =
     (let payload = spec_payload t tel;
          x = payload XOR drop_bit 4 payload XOR drop_bit 8 payload
      in take_bit 4 (if bidir then NOT x else x))"

section \<open>The interface to the RMT driver\<close>

text \<open>
  Modelled from the spec: the enumeration \<^verbatim>\<open>rmt_encode_state_t\<close> is declared in the RMT
  driver's header, which is not among the sources. The specification gives the status of
  an encode call as a bit set of Complete and BufferFull, and has the reset value denote
  the initial phase. The values are the driver's: \<^verbatim>\<open>RMT_ENCODING_RESET = 0\<close>,
  \<^verbatim>\<open>RMT_ENCODING_COMPLETE = 1 << 0\<close>, \<^verbatim>\<open>RMT_ENCODING_MEM_FULL = 1 << 1\<close>.
\<close>

type_synonym rmt_encode_state_t = "32 word"

definition RMT_ENCODING_RESET :: rmt_encode_state_t where
  "RMT_ENCODING_RESET = 0"

definition RMT_ENCODING_COMPLETE :: rmt_encode_state_t where
  "RMT_ENCODING_COMPLETE = push_bit 0 1"

definition RMT_ENCODING_MEM_FULL :: rmt_encode_state_t where
  "RMT_ENCODING_MEM_FULL = push_bit 1 1"

text \<open>
  Modelled from the spec: \<^verbatim>\<open>esp_err_t\<close> and its codes come from the platform's headers,
  which are not among the sources. The specification names the two failures
  InvalidArgument and OutOfMemory; the values are the platform's.
\<close>

type_synonym esp_err_t = int

definition ESP_OK :: esp_err_t where
  "ESP_OK = 0"

definition ESP_ERR_NO_MEM :: esp_err_t where
  "ESP_ERR_NO_MEM = 0x101"

definition ESP_ERR_INVALID_ARG :: esp_err_t where
  "ESP_ERR_INVALID_ARG = 0x102"

text \<open>
  Modelled from the spec: \<^verbatim>\<open>rmt_symbol_word_t\<close> is the driver's symbol, a level and a
  duration twice over. Its declaration is not among the sources, so the type of the
  duration fields is the parameter \<open>'d\<close>. The constructor below stores into them at a
  type \<open>'n word\<close>: a store into a duration field keeps the low \<open>LENGTH('n)\<close> bits, as a
  store into any bit-field does (the driver's header has 15-bit durations).
\<close>

record 'd rmt_symbol_word_t =
  duration0 :: 'd
  level0 :: "1 word"
  duration1 :: 'd
  level1 :: "1 word"

text \<open>
  The data an encoder is called with: the source passes a pointer and a size, the model
  passes what the pointer points to.
\<close>

datatype 'd rmt_data = Byte_buffer "8 word list" | Symbol_buffer "'d rmt_symbol_word_t list"

text \<open>
  Modelled from the spec: \<^verbatim>\<open>rmt_encoder_t\<close> is the driver's encoder interface
  (\<^verbatim>\<open>encode\<close>, \<^verbatim>\<open>reset\<close>, \<^verbatim>\<open>del\<close>); the two sub-encoders are collaborators
  outside the repository. An encoder acts on a state \<open>'w\<close> that stands for everything
  the collaborators own: the channel, its symbol memory and their own progress.
  \<^verbatim>\<open>encode\<close> returns the number of symbols written and the status it stores through
  \<^verbatim>\<open>ret_state\<close>.
\<close>

record ('w, 'd) rmt_encoder_t =
  encode :: "'w \<Rightarrow> 'd rmt_data \<Rightarrow> 32 word \<times> rmt_encode_state_t \<times> 'w"
  reset :: "'w \<Rightarrow> 'w"

text \<open>
  Modelled from the spec: the per-frame input and the configuration are declared in the
  repository's header \<^verbatim>\<open>dshot_rmt_encoder.h\<close>, which is not among the sources. The
  specification gives their fields in its section on external interfaces, and the
  source reads exactly these. The flag \<^verbatim>\<open>bidirectional\<close> of the configuration is named
  \<open>config_bidirectional\<close> here, since the encoder has a field of the same name.
\<close>

record dshot_rmt_throttle_t =
  throttle :: "16 word"
  telemetry_req :: bool

record dshot_rmt_encoder_config_t =
  resolution :: "32 word"
  baud_rate :: "32 word"
  post_delay_us :: "32 word"
  config_bidirectional :: bool

section \<open>The encoder\<close>

text \<open>
  \<^verbatim>\<open>dshot_rmt_encoder_t\<close> without its \<^verbatim>\<open>base\<close>, whose three function pointers are the
  three functions below.
\<close>

record ('w, 'd) dshot_rmt_encoder_t =
  bytes_encoder :: "('w, 'd) rmt_encoder_t"
  copy_encoder :: "('w, 'd) rmt_encoder_t"
  dshot_delay_symbol :: "'d rmt_symbol_word_t"
  state :: int
  bidirectional :: bool

text \<open>
  What a call of the encoder leaves behind: the value it returns, the status stored
  through \<^verbatim>\<open>ret_state\<close>, the encoder and the collaborators' state after the call, and
  the sub-encoders it has called, in order.
\<close>

datatype sub_encoder = Bytes_encoder | Copy_encoder

record ('w, 'd) encode_outcome =
  encoded_symbols :: "32 word"
  ret_state :: rmt_encode_state_t
  encoder_after :: "('w, 'd) dshot_rmt_encoder_t"
  world_after :: 'w
  called :: "sub_encoder list"

text \<open>
  \<^verbatim>\<open>case 1\<close> of the switch, lines 96-108. It is entered with the local \<^verbatim>\<open>state\<close> still
  \<^verbatim>\<open>RMT_ENCODING_RESET\<close>, either directly or by falling through from \<^verbatim>\<open>case 0\<close>
  with the symbols counted so far. Both exits, the \<^verbatim>\<open>goto out\<close> and the end of the
  switch, reach the same label.
\<close>

definition send_post_delay ::
  "('w, 'd) dshot_rmt_encoder_t \<Rightarrow> 'w \<Rightarrow> 32 word \<Rightarrow> sub_encoder list
     \<Rightarrow> ('w, 'd) encode_outcome" where
  "send_post_delay enc w symbols_so_far calls =
     (let (n, session_state, w') =
            encode (copy_encoder enc) w (Symbol_buffer [dshot_delay_symbol enc]);
          complete = (session_state AND RMT_ENCODING_COMPLETE \<noteq> 0);
          st = RMT_ENCODING_RESET;
          st = (if complete then st OR RMT_ENCODING_COMPLETE else st);
          enc = (if complete then enc\<lparr>state := uint RMT_ENCODING_RESET\<rparr> else enc);
          st = (if session_state AND RMT_ENCODING_MEM_FULL \<noteq> 0
                then st OR RMT_ENCODING_MEM_FULL else st)
      in \<lparr>encoded_symbols = symbols_so_far + n, ret_state = st, encoder_after = enc,
          world_after = w', called = calls @ [Copy_encoder]\<rparr>)"

text \<open>
  \<^verbatim>\<open>rmt_encode_dshot_esc\<close>, lines 67-113. The frame is built from a zeroed
  \<^verbatim>\<open>dshot_frame_t\<close> on every call. The switch has no default: with a phase other than
  0 and 1 the call writes nothing and returns 0 with the reset status.
\<close>

definition rmt_encode_dshot_esc ::
  "('w, 'd) dshot_rmt_encoder_t \<Rightarrow> 'w \<Rightarrow> dshot_rmt_throttle_t
     \<Rightarrow> ('w, 'd) encode_outcome" where
  "rmt_encode_dshot_esc enc w cmd =
     (let frame = make_dshot_frame 0 (throttle cmd) (telemetry_req cmd) (bidirectional enc)
      in if state enc = 0 then
           (let (n, session_state, w') =
                  encode (bytes_encoder enc) w (Byte_buffer (frame_buffer frame));
                enc = (if session_state AND RMT_ENCODING_COMPLETE \<noteq> 0
                       then enc\<lparr>state := 1\<rparr> else enc)
            in if session_state AND RMT_ENCODING_MEM_FULL \<noteq> 0
               then \<lparr>encoded_symbols = 0 + n,
                     ret_state = RMT_ENCODING_RESET OR RMT_ENCODING_MEM_FULL,
                     encoder_after = enc, world_after = w', called = [Bytes_encoder]\<rparr>
               else send_post_delay enc w' (0 + n) [Bytes_encoder])
         else if state enc = 1 then send_post_delay enc w 0 []
         else \<lparr>encoded_symbols = 0, ret_state = RMT_ENCODING_RESET, encoder_after = enc,
               world_after = w, called = []\<rparr>)"

text \<open>
  \<^verbatim>\<open>rmt_dshot_encoder_reset\<close>, lines 124-131: both sub-encoders are reset, the byte-stream
  encoder first, and the phase is set to \<^verbatim>\<open>RMT_ENCODING_RESET\<close>. It returns \<^verbatim>\<open>ESP_OK\<close>.
\<close>

definition rmt_dshot_encoder_reset ::
  "('w, 'd) dshot_rmt_encoder_t \<Rightarrow> 'w
     \<Rightarrow> esp_err_t \<times> ('w, 'd) dshot_rmt_encoder_t \<times> 'w" where
  "rmt_dshot_encoder_reset enc w =
     (let w = reset (bytes_encoder enc) w;
          w = reset (copy_encoder enc) w
      in (ESP_OK, enc\<lparr>state := uint RMT_ENCODING_RESET\<rparr>, w))"

section \<open>Construction\<close>

subsection \<open>Floating-point arithmetic\<close>

text \<open>
  The constructor computes its tick counts in \<^verbatim>\<open>float\<close> and \<^verbatim>\<open>double\<close>. Every value of
  these types is a real number, and every operation is the exact operation followed by
  a rounding into the format. The model takes the two roundings as parameters and
  applies them wherever the C semantics rounds: at each arithmetic operation, at the
  conversion of a \<^verbatim>\<open>uint32_t\<close> to \<^verbatim>\<open>float\<close> and at the decimal literals \<^verbatim>\<open>0.7485\<close> and
  \<^verbatim>\<open>0.37425\<close>. Conversions that are always exact (a \<^verbatim>\<open>uint32_t\<close> or a \<^verbatim>\<open>float\<close> to
  \<^verbatim>\<open>double\<close>, the literal \<^verbatim>\<open>1e6\<close>) are left out.
\<close>

record fp_arith =
  to_float :: "real \<Rightarrow> real"
  to_double :: "real \<Rightarrow> real"

text \<open>
  What the theorems ask of the two roundings, where they ask anything: rounding to
  nearest in binary32 and in binary64. On the normal range of a format with precision
  \<open>p\<close> and largest exponent \<open>emax\<close>, the rounded value is off by at most the fraction
  \<open>2\<^sup>-\<^sup>p\<close> of the exact one.
\<close>

definition rounds_to_nearest :: "(real \<Rightarrow> real) \<Rightarrow> nat \<Rightarrow> nat \<Rightarrow> bool" where
  "rounds_to_nearest r p emax \<longleftrightarrow>
     (\<forall>x. 1 / 2 ^ (emax - 1) \<le> \<bar>x\<bar> \<and> \<bar>x\<bar> \<le> 2 ^ emax \<longrightarrow> \<bar>r x - x\<bar> \<le> \<bar>x\<bar> / 2 ^ p)"

definition ieee_754 :: "fp_arith \<Rightarrow> bool" where
  "ieee_754 fp \<longleftrightarrow>
     rounds_to_nearest (to_float fp) 24 127 \<and> rounds_to_nearest (to_double fp) 53 1023"

text \<open>
  The conversion of a floating-point value to an unsigned integer truncates towards
  zero. For a value outside the range of the integer type, and for the result of a
  division by zero, C leaves the behaviour undefined; the model wraps there, and a
  division by zero is 0 as everywhere in HOL, so the model says nothing about the code
  on such inputs.
\<close>

definition trunc_uint :: "real \<Rightarrow> 32 word" where
  "trunc_uint x = word_of_int (if 0 \<le> x then \<lfloor>x\<rfloor> else \<lceil>x\<rceil>)"

text \<open>Line 143: \<^verbatim>\<open>config->resolution / 1e6 * config->post_delay_us\<close>, in \<^verbatim>\<open>double\<close>.\<close>

definition delay_ticks_double :: "fp_arith \<Rightarrow> dshot_rmt_encoder_config_t \<Rightarrow> real" where
  "delay_ticks_double fp config =
     to_double fp (to_double fp (real (unat (resolution config)) / 1000000)
                    * real (unat (post_delay_us config)))"

definition delay_ticks :: "fp_arith \<Rightarrow> dshot_rmt_encoder_config_t \<Rightarrow> 32 word" where
  "delay_ticks fp config = trunc_uint (delay_ticks_double fp config)"

text \<open>Lines 144-149: the gap symbol. The division by 2 is the integer division of
  \<^verbatim>\<open>uint32_t\<close>; each store keeps the low bits that fit the duration field.\<close>

definition make_delay_symbol ::
  "fp_arith \<Rightarrow> dshot_rmt_encoder_config_t \<Rightarrow> ('n::len) word rmt_symbol_word_t" where
  "make_delay_symbol fp config =
     \<lparr>duration0 = ucast (delay_ticks fp config div 2), level0 = 0,
      duration1 = ucast (delay_ticks fp config div 2), level1 = 0\<rparr>"

text \<open>Lines 154-159. \<^verbatim>\<open>period_ticks\<close> is a \<^verbatim>\<open>float\<close>; the two products with a
  \<^verbatim>\<open>double\<close> literal are computed in \<^verbatim>\<open>double\<close>, the two differences with an
  \<^verbatim>\<open>unsigned int\<close> in \<^verbatim>\<open>float\<close>.\<close>

definition period_ticks :: "fp_arith \<Rightarrow> dshot_rmt_encoder_config_t \<Rightarrow> real" where
  "period_ticks fp config =
     to_float fp (to_float fp (real (unat (resolution config)))
                   / to_float fp (real (unat (baud_rate config))))"

definition t1h_ticks :: "fp_arith \<Rightarrow> dshot_rmt_encoder_config_t \<Rightarrow> 32 word" where
  "t1h_ticks fp config =
     trunc_uint (to_double fp (period_ticks fp config * to_double fp (7485 / 10000)))"

definition t1l_ticks :: "fp_arith \<Rightarrow> dshot_rmt_encoder_config_t \<Rightarrow> 32 word" where
  "t1l_ticks fp config =
     trunc_uint (to_float fp (period_ticks fp config
                               - to_float fp (real (unat (t1h_ticks fp config)))))"

definition t0h_ticks :: "fp_arith \<Rightarrow> dshot_rmt_encoder_config_t \<Rightarrow> 32 word" where
  "t0h_ticks fp config =
     trunc_uint (to_double fp (period_ticks fp config * to_double fp (37425 / 100000)))"

definition t0l_ticks :: "fp_arith \<Rightarrow> dshot_rmt_encoder_config_t \<Rightarrow> 32 word" where
  "t0l_ticks fp config =
     trunc_uint (to_float fp (period_ticks fp config
                               - to_float fp (real (unat (t0h_ticks fp config)))))"

text \<open>
  Modelled from the spec: \<^verbatim>\<open>rmt_bytes_encoder_config_t\<close> is the driver's bit-timing table,
  not among the sources: one symbol for a 0 bit, one for a 1 bit, and the bit order.
\<close>

record 'd rmt_bytes_encoder_config_t =
  bit0 :: "'d rmt_symbol_word_t"
  bit1 :: "'d rmt_symbol_word_t"
  msb_first :: "1 word"

text \<open>Lines 160-174.\<close>

definition bytes_encoder_config ::
  "fp_arith \<Rightarrow> dshot_rmt_encoder_config_t \<Rightarrow> ('n::len) word rmt_bytes_encoder_config_t" where
  "bytes_encoder_config fp config =
     \<lparr>bit0 = \<lparr>duration0 = ucast (t0h_ticks fp config), level0 = 1,
              duration1 = ucast (t0l_ticks fp config), level1 = 0\<rparr>,
      bit1 = \<lparr>duration0 = ucast (t1h_ticks fp config), level0 = 1,
              duration1 = ucast (t1l_ticks fp config), level1 = 0\<rparr>,
      msb_first = 1\<rparr>"

subsection \<open>Allocation and roll-back\<close>

text \<open>
  Modelled from the spec: the three driver calls of the constructor are outside the
  repository. \<^verbatim>\<open>rmt_alloc_encoder_mem\<close> either returns zeroed storage or a null pointer;
  the source relies on the zeroes, since it never assigns the phase and its error path
  tests the two sub-encoder pointers of storage it has not written to. A constructor of
  a sub-encoder either returns \<^verbatim>\<open>ESP_OK\<close> and stores the new encoder (\<open>Inr\<close>), or
  returns an error code and stores nothing (\<open>Inl\<close>).
\<close>

record ('w, 'd) rmt_driver =
  rmt_alloc_encoder_mem :: bool
  rmt_new_bytes_encoder :: "'d rmt_bytes_encoder_config_t \<Rightarrow> esp_err_t + ('w, 'd) rmt_encoder_t"
  rmt_new_copy_encoder :: "esp_err_t + ('w, 'd) rmt_encoder_t"

text \<open>The objects a construction can hold: its own storage and the two sub-encoders.\<close>

datatype resource = Encoder_storage | Bytes_encoder_object | Copy_encoder_object

text \<open>
  What a construction leaves behind: the code it returns, the encoder stored through
  \<^verbatim>\<open>ret_encoder\<close> (\<open>None\<close> when nothing is stored), and the objects that were
  allocated and not released.
\<close>

record ('w, 'd) new_outcome =
  ret :: esp_err_t
  ret_encoder :: "('w, 'd) dshot_rmt_encoder_t option"
  live :: "resource set"

text \<open>
  The label \<^verbatim>\<open>err\<close>, lines 180-193. The three flags say whether \<^verbatim>\<open>dshot_encoder\<close>,
  \<^verbatim>\<open>dshot_encoder->bytes_encoder\<close> and \<^verbatim>\<open>dshot_encoder->copy_encoder\<close> are non-null.
\<close>

definition err_cleanup :: "bool \<Rightarrow> bool \<Rightarrow> bool \<Rightarrow> resource set \<Rightarrow> resource set" where
  "err_cleanup has_encoder has_bytes has_copy objs =
     (if has_encoder then
        (let objs = (if has_bytes then objs - {Bytes_encoder_object} else objs);
             objs = (if has_copy then objs - {Copy_encoder_object} else objs)
         in objs - {Encoder_storage})
      else objs)"

text \<open>
  \<^verbatim>\<open>rmt_new_dshot_esc_encoder\<close>, lines 133-194. The configuration pointer is an option,
  the result pointer a flag that says whether it is non-null.
\<close>

definition rmt_new_dshot_esc_encoder ::
  "fp_arith \<Rightarrow> ('w, ('n::len) word) rmt_driver \<Rightarrow> dshot_rmt_encoder_config_t option \<Rightarrow> bool
     \<Rightarrow> ('w, 'n word) new_outcome" where
  "rmt_new_dshot_esc_encoder fp drv config ret_encoder_given =
     (case config of
        None \<Rightarrow>
          \<lparr>ret = ESP_ERR_INVALID_ARG, ret_encoder = None,
           live = err_cleanup False False False {}\<rparr>
      | Some c \<Rightarrow>
          if \<not> ret_encoder_given then
            \<lparr>ret = ESP_ERR_INVALID_ARG, ret_encoder = None,
             live = err_cleanup False False False {}\<rparr>
          else if \<not> rmt_alloc_encoder_mem drv then
            \<lparr>ret = ESP_ERR_NO_MEM, ret_encoder = None,
             live = err_cleanup False False False {}\<rparr>
          else
            (let objs = {Encoder_storage};
                 symbol = make_delay_symbol fp c;
                 bidir = config_bidirectional c
             in case rmt_new_bytes_encoder drv (bytes_encoder_config fp c) of
                  Inl e \<Rightarrow>
                    \<lparr>ret = e, ret_encoder = None,
                     live = err_cleanup True False False objs\<rparr>
                | Inr bytes \<Rightarrow>
                    (let objs = insert Bytes_encoder_object objs
                     in case rmt_new_copy_encoder drv of
                          Inl e \<Rightarrow>
                            \<lparr>ret = e, ret_encoder = None,
                             live = err_cleanup True True False objs\<rparr>
                        | Inr copy \<Rightarrow>
                            \<lparr>ret = ESP_OK,
                             ret_encoder =
                               Some \<lparr>bytes_encoder = bytes, copy_encoder = copy,
                                     dshot_delay_symbol = symbol, state = 0,
                                     bidirectional = bidir\<rparr>,
                             live = insert Copy_encoder_object objs\<rparr>)))"

text \<open>
  The encoders a caller can hold: one that a construction has returned, and whatever
  \<^verbatim>\<open>encode\<close> and \<^verbatim>\<open>reset\<close> make of it, for any input and any state of the
  collaborators.
\<close>

inductive reachable ::
  "fp_arith \<Rightarrow> ('w, ('n::len) word) rmt_driver \<Rightarrow> ('w, 'n word) dshot_rmt_encoder_t \<Rightarrow> bool"
  for fp :: fp_arith and drv :: "('w, ('n::len) word) rmt_driver" where
  constructed:
    "ret_encoder (rmt_new_dshot_esc_encoder fp drv config given) = Some enc
       \<Longrightarrow> reachable fp drv enc"
| encoded:
    "reachable fp drv enc
       \<Longrightarrow> reachable fp drv (encoder_after (rmt_encode_dshot_esc enc w cmd))"
| was_reset:
    "reachable fp drv enc
       \<Longrightarrow> reachable fp drv (fst (snd (rmt_dshot_encoder_reset enc w)))"

section \<open>Stand-ins for the collaborators\<close>

text \<open>
  The theorems below hold for every sub-encoder, every driver and every rounding. To run
  the model on concrete inputs, these are the simplest instances: a sub-encoder that
  answers each call with the next entry of a script (the number of symbols written and
  the status), exact arithmetic, and a driver whose calls succeed or fail as its
  arguments say.
\<close>

type_synonym script = "(32 word \<times> rmt_encode_state_t) list"

definition scripted_encode :: "script \<Rightarrow> 'd rmt_data \<Rightarrow> 32 word \<times> rmt_encode_state_t \<times> script" where
  "scripted_encode w d =
     (case w of [] \<Rightarrow> (0, RMT_ENCODING_RESET, []) | (n, s) # rest \<Rightarrow> (n, s, rest))"

definition scripted_encoder :: "(script, 'd) rmt_encoder_t" where
  "scripted_encoder = \<lparr>encode = scripted_encode, reset = (\<lambda>w. [])\<rparr>"

definition exact_arith :: fp_arith where
  "exact_arith = \<lparr>to_float = (\<lambda>x. x), to_double = (\<lambda>x. x)\<rparr>"

definition scripted_driver :: "bool \<Rightarrow> esp_err_t option \<Rightarrow> esp_err_t option \<Rightarrow> (script, 'd) rmt_driver" where
  "scripted_driver alloc bytes_failure copy_failure =
     \<lparr>rmt_alloc_encoder_mem = alloc,
      rmt_new_bytes_encoder =
        (\<lambda>cfg. case bytes_failure of Some e \<Rightarrow> Inl e | None \<Rightarrow> Inr scripted_encoder),
      rmt_new_copy_encoder =
        (case copy_failure of Some e \<Rightarrow> Inl e | None \<Rightarrow> Inr scripted_encoder)\<rparr>"

definition scripted_dshot_encoder :: "int \<Rightarrow> (script, 15 word) dshot_rmt_encoder_t" where
  "scripted_dshot_encoder phase =
     \<lparr>bytes_encoder = scripted_encoder, copy_encoder = scripted_encoder,
      dshot_delay_symbol = \<lparr>duration0 = 800, level0 = 0, duration1 = 800, level1 = 0\<rparr>,
      state = phase, bidirectional = False\<rparr>"

definition dshot600_config :: dshot_rmt_encoder_config_t where
  "dshot600_config =
     \<lparr>resolution = 40000000, baud_rate = 600000, post_delay_us = 50,
      config_bidirectional = False\<rparr>"

text \<open>
  Two configurations for the gap. The first asks for a gap of 2 ms at 40 MHz, 80000
  ticks. The second has a clock of 4.1 MHz, whose quotient by \<^verbatim>\<open>1e6\<close> is not a binary
  fraction; \<open>binary64_near_4_1\<close> is exact arithmetic except at the two values that the
  computation of its gap meets, where it rounds as binary64 does: 4.1 to
  \<open>4616189618054758 / 2\<^sup>5\<^sup>0\<close>, and the product of that with 100 to \<open>410 - 2\<^sup>-\<^sup>4\<^sup>4\<close>.
\<close>

definition long_gap_config :: dshot_rmt_encoder_config_t where
  "long_gap_config =
     \<lparr>resolution = 40000000, baud_rate = 600000, post_delay_us = 2000,
      config_bidirectional = False\<rparr>"

definition clock_4_1_config :: dshot_rmt_encoder_config_t where
  "clock_4_1_config =
     \<lparr>resolution = 4100000, baud_rate = 600000, post_delay_us = 100,
      config_bidirectional = False\<rparr>"

definition binary64_near_4_1 :: fp_arith where
  "binary64_near_4_1 =
     \<lparr>to_float = (\<lambda>x. x),
      to_double = (\<lambda>x. if x = 41 / 10 then 4616189618054758 / 2 ^ 50
                        else if x = 4616189618054758 / 2 ^ 50 * 100 then 410 - 1 / 2 ^ 44
                        else x)\<rparr>"

text \<open>The two calls the encoder makes, as it makes them.\<close>

abbreviation bytes_call ::
  "('w, 'd) dshot_rmt_encoder_t \<Rightarrow> 'w \<Rightarrow> dshot_rmt_throttle_t
     \<Rightarrow> 32 word \<times> rmt_encode_state_t \<times> 'w" where
  "bytes_call enc w cmd \<equiv>
     encode (bytes_encoder enc) w
       (Byte_buffer (frame_buffer
          (make_dshot_frame 0 (throttle cmd) (telemetry_req cmd) (bidirectional enc))))"

abbreviation copy_call ::
  "('w, 'd) dshot_rmt_encoder_t \<Rightarrow> 'w \<Rightarrow> 32 word \<times> rmt_encode_state_t \<times> 'w" where
  "copy_call enc w \<equiv> encode (copy_encoder enc) w (Symbol_buffer [dshot_delay_symbol enc])"

section \<open>The frame, bit by bit\<close>

lemma mask_0x1F: "(0x1F :: 16 word) = mask 5"
  by (simp add: mask_eq_exp_minus_1)

lemma mask_0xFFF0: "(0xFFF0 :: 16 word) = NOT (mask 4)"
  by (simp add: mask_eq_exp_minus_1)

lemma mask_0xF0: "(0xF0 :: 8 word) = push_bit 4 (mask 4)"
  by (simp add: mask_eq_exp_minus_1)

lemma mask_0xFF: "(0xFF :: 16 word) = mask 8"
  by (simp add: mask_eq_exp_minus_1)

lemma mask_0xFF00: "(0xFF00 :: 16 word) = NOT (mask 8)"
  by (simp add: mask_eq_exp_minus_1)

lemma bit_0x10: "bit (0x10 :: 16 word) n \<longleftrightarrow> n = 4"
proof -
  have "(0x10 :: 16 word) = 2 ^ 4" by simp
  then have "bit (0x10 :: 16 word) n \<longleftrightarrow> bit (2 ^ 4 :: 16 word) n" by (simp only:)
  also have "\<dots> \<longleftrightarrow> n = 4" by (simp only: bit_exp_iff) auto
  finally show ?thesis .
qed

lemma bit_0xFFEF: "bit (0xFFEF :: 16 word) n \<longleftrightarrow> n < 16 \<and> n \<noteq> 4"
proof -
  have "(0xFFEF :: 16 word) = NOT 0x10" by simp
  then have "bit (0xFFEF :: 16 word) n \<longleftrightarrow> bit (NOT 0x10 :: 16 word) n" by (simp only:)
  also have "\<dots> \<longleftrightarrow> n < 16 \<and> n \<noteq> 4" by (simp only: bit_not_iff bit_0x10) simp
  finally show ?thesis .
qed

lemma bit_set_throttle:
  "bit (set_throttle f x) n \<longleftrightarrow> (if n < 5 then bit f n else n < 16 \<and> bit x (n - 5))"
  unfolding set_throttle_def mask_0x1F
  by (auto simp add: bit_simps dest: bit_imp_le_length)

lemma bit_set_telemetry:
  "bit (set_telemetry f b) n \<longleftrightarrow> (if n = 4 then b else bit f n)"
  apply (simp only: set_telemetry_def bit_and_iff bit_or_iff bit_0xFFEF
      if_distrib [of "\<lambda>w. bit w n"] bit_0x10 bit_0_eq)
  apply (auto dest: bit_imp_le_length)
  done

lemma bit_set_crc:
  "bit (set_crc f c) n \<longleftrightarrow> (if n < 4 then bit c n else bit f n)"
  unfolding set_crc_def mask_0xFFF0
  by (auto simp add: bit_simps dest: bit_imp_le_length)

lemma bit_swap_bytes:
  "bit (swap_bytes v) n \<longleftrightarrow> (if n < 8 then bit v (n + 8) else n < 16 \<and> bit v (n - 8))"
  unfolding swap_bytes_def mask_0xFF mask_0xFF00
  by (auto simp add: bit_simps add.commute dest: bit_imp_le_length)

lemma bit_dshot_crc_byte:
  "bit (dshot_crc_byte val bi) n \<longleftrightarrow>
     4 \<le> n \<and> n < 8 \<and> ((bit val n \<noteq> (bit val (n + 4) \<noteq> bit val (n + 8))) \<noteq> bi)"
  unfolding dshot_crc_byte_def mask_0xF0 Let_def
  by (auto simp add: bit_simps add.commute dest: bit_imp_le_length)

lemma bit_crc_nibble:
  "bit (drop_bit 4 (dshot_crc_byte val bi)) n \<longleftrightarrow>
     n < 4 \<and> ((bit val (n + 4) \<noteq> (bit val (n + 8) \<noteq> bit val (n + 12))) \<noteq> bi)"
  by (simp only: bit_drop_bit_eq o_apply bit_dshot_crc_byte) (auto simp add: add.commute)

lemma bit_header:
  "bit (set_telemetry (set_throttle f t) tel) n \<longleftrightarrow>
     (if n < 4 then bit f n else if n = 4 then tel else n < 16 \<and> bit t (n - 5))"
  by (simp only: bit_set_telemetry bit_set_throttle) auto

text \<open>Every bit of the frame before the byte swap. The old content of the frame does
  not show: the CRC reads bits 4-15 only, and all three fields are overwritten.\<close>

lemma bit_dshot_frame_fields:
  "bit (dshot_frame_fields f t tel bi) n \<longleftrightarrow>
     (if n = 0 then (tel \<noteq> (bit t 3 \<noteq> bit t 7)) \<noteq> bi
      else if n < 4 then (bit t (n - 1) \<noteq> (bit t (n + 3) \<noteq> bit t (n + 7))) \<noteq> bi
      else if n = 4 then tel
      else n < 16 \<and> bit t (n - 5))"
proof -
  have "bit (dshot_frame_fields f t tel bi) n \<longleftrightarrow>
      (if n < 4 then bit (drop_bit 4 (dshot_crc_byte (set_telemetry (set_throttle f t) tel) bi)) n
       else bit (set_telemetry (set_throttle f t) tel) n)"
    by (simp only: dshot_frame_fields_def Let_def bit_set_crc)
  also have "\<dots> \<longleftrightarrow> (if n = 0 then (tel \<noteq> (bit t 3 \<noteq> bit t 7)) \<noteq> bi
      else if n < 4 then (bit t (n - 1) \<noteq> (bit t (n + 3) \<noteq> bit t (n + 7))) \<noteq> bi
      else if n = 4 then tel
      else n < 16 \<and> bit t (n - 5))"
    by (simp only: bit_crc_nibble bit_header) (simp add: add.commute)
  finally show ?thesis .
qed

lemma bit_shifted_throttle:
  "bit (push_bit 1 t :: 16 word) n \<longleftrightarrow> 0 < n \<and> n < 16 \<and> bit t (n - 1)"
  by (simp only: bit_push_bit_iff) (auto dest: bit_imp_le_length)

lemma bit_spec_payload:
  "bit (spec_payload t tel) n \<longleftrightarrow> (if n = 0 then tel else n < 16 \<and> bit t (n - 1))"
proof (cases tel)
  case True
  then have "bit (spec_payload t tel) n \<longleftrightarrow> bit (push_bit 1 t) n \<or> bit (1 :: 16 word) n"
    by (simp only: spec_payload_def bit_or_iff if_True)
  also have "\<dots> \<longleftrightarrow> (if n = 0 then tel else n < 16 \<and> bit t (n - 1))"
    using True by (simp only: bit_shifted_throttle bit_1_iff) auto
  finally show ?thesis .
next
  case False
  then have "bit (spec_payload t tel) n \<longleftrightarrow> bit (push_bit 1 t) n \<or> bit (0 :: 16 word) n"
    by (simp only: spec_payload_def bit_or_iff if_False)
  also have "\<dots> \<longleftrightarrow> (if n = 0 then tel else n < 16 \<and> bit t (n - 1))"
    using False by (simp only: bit_shifted_throttle bit_0_eq) auto
  finally show ?thesis .
qed

lemma bit_spec_crc:
  "bit (spec_crc t tel bi) n \<longleftrightarrow>
     n < 4 \<and> ((bit (spec_payload t tel) n \<noteq>
               (bit (spec_payload t tel) (n + 4) \<noteq> bit (spec_payload t tel) (n + 8))) \<noteq> bi)"
  unfolding spec_crc_def Let_def
  by (cases bi) (auto simp add: bit_simps add.commute)

lemma frame_crc_is_spec_crc:
  "frame_crc (dshot_frame_fields f t tel bi) = spec_crc t tel bi"
proof (rule bit_word_eqI)
  fix n
  show "bit (frame_crc (dshot_frame_fields f t tel bi)) n \<longleftrightarrow> bit (spec_crc t tel bi) n"
    unfolding frame_crc_def
    by (simp only: bit_take_bit_iff bit_dshot_frame_fields bit_spec_crc bit_spec_payload)
       (auto simp add: add.commute)
qed

lemma swap_bytes_twice: "swap_bytes (swap_bytes v) = v"
  by (rule bit_word_eqI) (auto simp add: bit_swap_bytes)

lemma throttle_bits:
  assumes "t \<le> (2047 :: 16 word)"
  shows "bit t n \<longleftrightarrow> n < 11 \<and> bit t n"
proof -
  from assms have "t < 2 ^ 11" by (simp add: word_le_nat_alt word_less_nat_alt)
  then have "take_bit 11 t = t" by (simp add: take_bit_eq_mask less_mask_eq)
  then have "bit t n \<longleftrightarrow> bit (take_bit 11 t) n" by simp
  then show ?thesis by (simp add: bit_take_bit_iff)
qed

lemma spec_payload_12_bits:
  assumes "t \<le> (2047 :: 16 word)"
  shows "spec_payload t tel < 2 ^ 12"
proof -
  have "take_bit 12 (spec_payload t tel) = spec_payload t tel"
  proof (rule bit_word_eqI)
    fix n
    show "bit (take_bit 12 (spec_payload t tel)) n \<longleftrightarrow> bit (spec_payload t tel) n"
      using throttle_bits [OF assms, of "n - 1"]
      by (simp only: bit_take_bit_iff bit_spec_payload) auto
  qed
  moreover have "take_bit 12 (spec_payload t tel) < 2 ^ 12"
    by (simp only: take_bit_eq_mask) (rule and_mask_less', simp)
  ultimately show ?thesis by simp
qed



section \<open>The status flags\<close>

lemma flag_values:
  "RMT_ENCODING_RESET = 0" "RMT_ENCODING_COMPLETE = 1" "RMT_ENCODING_MEM_FULL = 2"
  by (simp_all add: RMT_ENCODING_RESET_def RMT_ENCODING_COMPLETE_def RMT_ENCODING_MEM_FULL_def)

lemma flag_tests:
  "RMT_ENCODING_MEM_FULL AND RMT_ENCODING_MEM_FULL \<noteq> 0"
  "RMT_ENCODING_MEM_FULL AND RMT_ENCODING_COMPLETE = 0"
  "RMT_ENCODING_COMPLETE AND RMT_ENCODING_COMPLETE \<noteq> 0"
  "RMT_ENCODING_COMPLETE AND RMT_ENCODING_MEM_FULL = 0"
  "(RMT_ENCODING_COMPLETE OR RMT_ENCODING_MEM_FULL) AND RMT_ENCODING_COMPLETE \<noteq> 0"
  "(RMT_ENCODING_COMPLETE OR RMT_ENCODING_MEM_FULL) AND RMT_ENCODING_MEM_FULL \<noteq> 0"
  "RMT_ENCODING_RESET AND x = 0"
  "RMT_ENCODING_RESET OR x = x"
  "uint RMT_ENCODING_RESET = 0"
  "RMT_ENCODING_MEM_FULL \<noteq> 0"
  "RMT_ENCODING_COMPLETE \<noteq> 0"
  by (simp_all add: flag_values)

section \<open>Claims about the frame\<close>

text \<open>
  C1. For every throttle in [0, 2047], either telemetry flag and either mode, the CRC
  field of the frame that \<^verbatim>\<open>make_dshot_frame\<close> builds from the zeroed frame of the
  encoder, read before the byte swap, is the reference CRC of the specification: the low
  nibble of \<^verbatim>\<open>payload XOR (payload >> 4) XOR (payload >> 8)\<close>, inverted first iff the mode
  is bidirectional, where the payload \<^verbatim>\<open>(throttle << 1) | telemetry\<close> is a 12-bit value.
  The finished frame is the byte swap of that frame, so the same field is read from it
  by swapping back. Throttle 1046 without telemetry gives CRC 6, and CRC 9 when
  bidirectional.
\<close>

theorem make_dshot_frame_crc:
  assumes "t \<le> 2047"
  shows "frame_crc (dshot_frame_fields 0 t tel bidir) = spec_crc t tel bidir
       \<and> frame_crc (swap_bytes (make_dshot_frame 0 t tel bidir)) = spec_crc t tel bidir
       \<and> spec_payload t tel < 2 ^ 12
       \<and> frame_crc (dshot_frame_fields 0 1046 False False) = 6
       \<and> frame_crc (dshot_frame_fields 0 1046 False True) = 9"
proof -
  have "frame_crc (dshot_frame_fields 0 1046 False False) = spec_crc 1046 False False"
    by (rule frame_crc_is_spec_crc)
  also have "\<dots> = 6"
    by (simp add: spec_crc_def spec_payload_def)
  finally have plain: "frame_crc (dshot_frame_fields 0 1046 False False) = 6" .
  have "frame_crc (dshot_frame_fields 0 1046 False True) = spec_crc 1046 False True"
    by (rule frame_crc_is_spec_crc)
  also have "\<dots> = 9"
    by (simp add: spec_crc_def spec_payload_def)
  finally have inverted: "frame_crc (dshot_frame_fields 0 1046 False True) = 9" .
  show ?thesis
    using assms plain inverted
    by (simp only: make_dshot_frame_def swap_bytes_twice frame_crc_is_spec_crc
        spec_payload_12_bits simp_thms)
qed

theorem make_dshot_frame_crc_witness:
  "frame_crc (dshot_frame_fields 0 2047 True True) = spec_crc 2047 True True
     \<and> spec_crc 2047 True True = 0
     \<and> spec_payload 2047 True = 4095"
  using make_dshot_frame_crc [of 2047 True True]
  by (simp add: spec_crc_def spec_payload_def)



section \<open>Claims about one call of the encoder\<close>

text \<open>
  C2. When the encoder is awaiting the frame (phase 0) and the byte-stream encoder
  reports buffer-full without completion, the call returns what the byte-stream encoder
  wrote, with BufferFull set and Complete clear; the phase is still 0 (the encoder is
  unchanged), and the byte-stream encoder is the only sub-encoder called.
\<close>

theorem buffer_full_before_completion:
  assumes "state enc = 0"
      and "bytes_call enc w cmd = (n, s, w')"
      and "s AND RMT_ENCODING_MEM_FULL \<noteq> 0"
      and "s AND RMT_ENCODING_COMPLETE = 0"
  shows "let r = rmt_encode_dshot_esc enc w cmd
         in ret_state r AND RMT_ENCODING_MEM_FULL \<noteq> 0
          \<and> ret_state r AND RMT_ENCODING_COMPLETE = 0
          \<and> state (encoder_after r) = 0
          \<and> encoder_after r = enc
          \<and> called r = [Bytes_encoder]
          \<and> encoded_symbols r = n
          \<and> world_after r = w'"
  using assms by (simp add: rmt_encode_dshot_esc_def Let_def flag_tests)

theorem buffer_full_before_completion_witness:
  "let r = rmt_encode_dshot_esc (scripted_dshot_encoder 0) [(7, RMT_ENCODING_MEM_FULL)]
             \<lparr>throttle = 1046, telemetry_req = False\<rparr>
   in ret_state r AND RMT_ENCODING_MEM_FULL \<noteq> 0
    \<and> ret_state r AND RMT_ENCODING_COMPLETE = 0
    \<and> state (encoder_after r) = 0
    \<and> encoder_after r = scripted_dshot_encoder 0
    \<and> called r = [Bytes_encoder]
    \<and> encoded_symbols r = 7
    \<and> world_after r = []"
  using buffer_full_before_completion [of "scripted_dshot_encoder 0"
      "[(7, RMT_ENCODING_MEM_FULL)]" "\<lparr>throttle = 1046, telemetry_req = False\<rparr>"
      7 RMT_ENCODING_MEM_FULL "[]"]
  by (simp add: scripted_dshot_encoder_def scripted_encoder_def scripted_encode_def flag_tests)

text \<open>
  C3. When the encoder is awaiting the frame (phase 0) and the byte-stream encoder
  reports completion without buffer-full, the same call goes on to the gap: it calls the
  gap encoder after the byte-stream encoder, on the state the latter left, and returns
  the sum of the two symbol counts. The sum is that of \<^verbatim>\<open>size_t\<close>, and is the sum of the
  numbers when that fits 32 bits.
\<close>

theorem completion_falls_through:
  assumes "state enc = 0"
      and "bytes_call enc w cmd = (n1, s1, w1)"
      and "s1 AND RMT_ENCODING_COMPLETE \<noteq> 0"
      and "s1 AND RMT_ENCODING_MEM_FULL = 0"
      and "copy_call enc w1 = (n2, s2, w2)"
  shows "let r = rmt_encode_dshot_esc enc w cmd
         in called r = [Bytes_encoder, Copy_encoder]
          \<and> encoded_symbols r = n1 + n2
          \<and> world_after r = w2
          \<and> (unat n1 + unat n2 < 2 ^ 32
               \<longrightarrow> unat (encoded_symbols r) = unat n1 + unat n2)"
  using assms
  by (simp add: rmt_encode_dshot_esc_def send_post_delay_def Let_def flag_tests unat_word_ariths)

theorem completion_falls_through_witness:
  "let r = rmt_encode_dshot_esc (scripted_dshot_encoder 0)
             [(16, RMT_ENCODING_COMPLETE), (1, RMT_ENCODING_COMPLETE)]
             \<lparr>throttle = 1046, telemetry_req = False\<rparr>
   in called r = [Bytes_encoder, Copy_encoder]
    \<and> encoded_symbols r = 17
    \<and> unat (encoded_symbols r) = 17
    \<and> world_after r = []"
  using completion_falls_through [of "scripted_dshot_encoder 0"
      "[(16, RMT_ENCODING_COMPLETE), (1, RMT_ENCODING_COMPLETE)]"
      "\<lparr>throttle = 1046, telemetry_req = False\<rparr>"
      16 RMT_ENCODING_COMPLETE "[(1, RMT_ENCODING_COMPLETE)]" 1 RMT_ENCODING_COMPLETE "[]"]
  by (simp add: scripted_dshot_encoder_def scripted_encoder_def scripted_encode_def flag_tests
      Let_def)

text \<open>
  C10. When the encoder is awaiting the frame (phase 0) and the byte-stream encoder
  reports completion and buffer-full in the same status, the phase advances to 1, yet
  the call returns with BufferFull set and Complete clear, and the byte-stream encoder is
  the only sub-encoder called. The next call, whatever its input and whatever the state
  of the collaborators, starts at the gap: the gap encoder is the only sub-encoder it
  calls.
\<close>

theorem complete_and_full_together:
  assumes "state enc = 0"
      and "bytes_call enc w cmd = (n, s, w')"
      and "s AND RMT_ENCODING_MEM_FULL \<noteq> 0"
      and "s AND RMT_ENCODING_COMPLETE \<noteq> 0"
  shows "let r = rmt_encode_dshot_esc enc w cmd
         in state (encoder_after r) = 1
          \<and> ret_state r AND RMT_ENCODING_MEM_FULL \<noteq> 0
          \<and> ret_state r AND RMT_ENCODING_COMPLETE = 0
          \<and> called r = [Bytes_encoder]
          \<and> encoded_symbols r = n
          \<and> world_after r = w'
          \<and> (\<forall>w2 cmd2. called (rmt_encode_dshot_esc (encoder_after r) w2 cmd2)
                           = [Copy_encoder])"
  using assms
  by (simp add: rmt_encode_dshot_esc_def send_post_delay_def Let_def flag_tests
      split: prod.splits)

theorem complete_and_full_together_witness:
  "let r = rmt_encode_dshot_esc (scripted_dshot_encoder 0)
             [(16, RMT_ENCODING_COMPLETE OR RMT_ENCODING_MEM_FULL)]
             \<lparr>throttle = 1046, telemetry_req = False\<rparr>
   in state (encoder_after r) = 1
    \<and> ret_state r AND RMT_ENCODING_MEM_FULL \<noteq> 0
    \<and> ret_state r AND RMT_ENCODING_COMPLETE = 0
    \<and> called r = [Bytes_encoder]
    \<and> encoded_symbols r = 16
    \<and> called (rmt_encode_dshot_esc (encoder_after r) [(1, RMT_ENCODING_COMPLETE)]
                \<lparr>throttle = 1046, telemetry_req = False\<rparr>) = [Copy_encoder]"
  using complete_and_full_together [of "scripted_dshot_encoder 0"
      "[(16, RMT_ENCODING_COMPLETE OR RMT_ENCODING_MEM_FULL)]"
      "\<lparr>throttle = 1046, telemetry_req = False\<rparr>"
      16 "RMT_ENCODING_COMPLETE OR RMT_ENCODING_MEM_FULL" "[]"]
  by (simp add: scripted_dshot_encoder_def scripted_encoder_def scripted_encode_def flag_tests
      Let_def)

section \<open>Claims about several calls\<close>

text \<open>
  C4. One frame encoded by two calls against one frame encoded by a single call, with
  the same encoder and the same throttle input. In the first of the two calls the
  byte-stream encoder completes and the call ends on buffer-full in the gap: either the
  byte-stream encoder has filled the buffer exactly, so that the gap encoder is not
  called and writes nothing, or the gap encoder is called and reports buffer-full without
  completion. The second call, made once the caller has drained the buffer, completes the
  gap. In the single call both sub-encoders complete. The sub-encoders behave the same in
  both runs: the byte-stream encoder writes the same number of symbols, and the gap
  encoder writes in one piece what it writes in two. Then the two calls return the same
  total as the single call, and both runs end with the same encoder, in phase 0, with
  Complete reported. Between the two calls only the phase is kept: it is 1, so the second
  call, which is given the throttle input again, calls the gap encoder alone.
\<close>

theorem split_encode_equals_single_encode:
  assumes "state enc = 0"
      and "bytes_call enc wa cmd = (n, sa, wa1)"
      and "sa AND RMT_ENCODING_COMPLETE \<noteq> 0"
      and "if sa AND RMT_ENCODING_MEM_FULL \<noteq> 0 then g1 = 0
           else copy_call enc wa1 = (g1, sa1, wa2)
              \<and> sa1 AND RMT_ENCODING_MEM_FULL \<noteq> 0 \<and> sa1 AND RMT_ENCODING_COMPLETE = 0"
      and "copy_call enc wa3 = (g2, sa2, wa4)"
      and "sa2 AND RMT_ENCODING_COMPLETE \<noteq> 0"
      and "bytes_call enc wb cmd = (n, sb, wb1)"
      and "sb AND RMT_ENCODING_COMPLETE \<noteq> 0" and "sb AND RMT_ENCODING_MEM_FULL = 0"
      and "copy_call enc wb1 = (g1 + g2, sb1, wb2)"
      and "sb1 AND RMT_ENCODING_COMPLETE \<noteq> 0"
  shows "let first = rmt_encode_dshot_esc enc wa cmd;
             second = rmt_encode_dshot_esc (encoder_after first) wa3 cmd;
             single = rmt_encode_dshot_esc enc wb cmd
         in encoded_symbols first + encoded_symbols second = encoded_symbols single
          \<and> state (encoder_after second) = 0
          \<and> state (encoder_after single) = 0
          \<and> encoder_after second = encoder_after single
          \<and> ret_state first AND RMT_ENCODING_COMPLETE = 0
          \<and> ret_state first AND RMT_ENCODING_MEM_FULL \<noteq> 0
          \<and> ret_state second AND RMT_ENCODING_COMPLETE \<noteq> 0
          \<and> ret_state single AND RMT_ENCODING_COMPLETE \<noteq> 0
          \<and> encoder_after first = enc\<lparr>state := 1\<rparr>
          \<and> called second = [Copy_encoder]"
proof (cases "sa AND RMT_ENCODING_MEM_FULL \<noteq> 0")
  case True
  with assms show ?thesis
    by (simp add: rmt_encode_dshot_esc_def send_post_delay_def Let_def flag_tests)
next
  case False
  with assms show ?thesis
    by (simp add: rmt_encode_dshot_esc_def send_post_delay_def Let_def flag_tests)
qed

theorem split_encode_equals_single_encode_witness:
  "let enc = scripted_dshot_encoder 0;
       cmd = \<lparr>throttle = 1046, telemetry_req = False\<rparr>;
       first = rmt_encode_dshot_esc enc
                 [(16, RMT_ENCODING_COMPLETE), (0, RMT_ENCODING_MEM_FULL)] cmd;
       second = rmt_encode_dshot_esc (encoder_after first) [(1, RMT_ENCODING_COMPLETE)] cmd;
       first' = rmt_encode_dshot_esc enc
                  [(16, RMT_ENCODING_COMPLETE OR RMT_ENCODING_MEM_FULL)] cmd;
       second' = rmt_encode_dshot_esc (encoder_after first') [(1, RMT_ENCODING_COMPLETE)] cmd;
       single = rmt_encode_dshot_esc enc
                  [(16, RMT_ENCODING_COMPLETE), (1, RMT_ENCODING_COMPLETE)] cmd
   in encoded_symbols first + encoded_symbols second = encoded_symbols single
    \<and> encoded_symbols first' + encoded_symbols second' = encoded_symbols single
    \<and> encoded_symbols single = 17
    \<and> state (encoder_after second) = 0
    \<and> state (encoder_after second') = 0
    \<and> state (encoder_after single) = 0"
proof -
  let ?enc = "scripted_dshot_encoder 0"
  let ?cmd = "\<lparr>throttle = 1046, telemetry_req = False\<rparr>"
  note run = scripted_dshot_encoder_def scripted_encoder_def scripted_encode_def flag_tests
  have gap_called:
    "let first = rmt_encode_dshot_esc ?enc
                   [(16, RMT_ENCODING_COMPLETE), (0, RMT_ENCODING_MEM_FULL)] ?cmd;
         second = rmt_encode_dshot_esc (encoder_after first) [(1, RMT_ENCODING_COMPLETE)] ?cmd;
         single = rmt_encode_dshot_esc ?enc
                    [(16, RMT_ENCODING_COMPLETE), (1, RMT_ENCODING_COMPLETE)] ?cmd
     in encoded_symbols first + encoded_symbols second = encoded_symbols single
      \<and> state (encoder_after second) = 0 \<and> state (encoder_after single) = 0"
    using split_encode_equals_single_encode [of ?enc
        "[(16, RMT_ENCODING_COMPLETE), (0, RMT_ENCODING_MEM_FULL)]" ?cmd
        16 RMT_ENCODING_COMPLETE "[(0, RMT_ENCODING_MEM_FULL)]"
        0 RMT_ENCODING_MEM_FULL "[]"
        "[(1, RMT_ENCODING_COMPLETE)]" 1 RMT_ENCODING_COMPLETE "[]"
        "[(16, RMT_ENCODING_COMPLETE), (1, RMT_ENCODING_COMPLETE)]"
        RMT_ENCODING_COMPLETE "[(1, RMT_ENCODING_COMPLETE)]" RMT_ENCODING_COMPLETE "[]"]
    by (simp add: run Let_def rmt_encode_dshot_esc_def send_post_delay_def)
  have gap_not_called:
    "let first' = rmt_encode_dshot_esc ?enc
                    [(16, RMT_ENCODING_COMPLETE OR RMT_ENCODING_MEM_FULL)] ?cmd;
         second' = rmt_encode_dshot_esc (encoder_after first') [(1, RMT_ENCODING_COMPLETE)] ?cmd;
         single = rmt_encode_dshot_esc ?enc
                    [(16, RMT_ENCODING_COMPLETE), (1, RMT_ENCODING_COMPLETE)] ?cmd
     in encoded_symbols first' + encoded_symbols second' = encoded_symbols single
      \<and> state (encoder_after second') = 0"
    using split_encode_equals_single_encode [of ?enc
        "[(16, RMT_ENCODING_COMPLETE OR RMT_ENCODING_MEM_FULL)]" ?cmd
        16 "RMT_ENCODING_COMPLETE OR RMT_ENCODING_MEM_FULL" "[]"
        0 RMT_ENCODING_RESET "[]"
        "[(1, RMT_ENCODING_COMPLETE)]" 1 RMT_ENCODING_COMPLETE "[]"
        "[(16, RMT_ENCODING_COMPLETE), (1, RMT_ENCODING_COMPLETE)]"
        RMT_ENCODING_COMPLETE "[(1, RMT_ENCODING_COMPLETE)]" RMT_ENCODING_COMPLETE "[]"]
    by (simp add: run Let_def rmt_encode_dshot_esc_def send_post_delay_def)
  have total: "encoded_symbols (rmt_encode_dshot_esc ?enc
                 [(16, RMT_ENCODING_COMPLETE), (1, RMT_ENCODING_COMPLETE)] ?cmd) = 17"
    by (simp add: run Let_def rmt_encode_dshot_esc_def send_post_delay_def)
  show ?thesis
    using gap_called gap_not_called total by (simp only: Let_def)
qed

section \<open>The phase\<close>

lemma send_post_delay_state:
  "state (encoder_after (send_post_delay enc w k cs)) = 0
     \<or> state (encoder_after (send_post_delay enc w k cs)) = state enc"
  by (simp add: send_post_delay_def Let_def flag_tests split: prod.splits)

lemma send_post_delay_complete:
  "ret_state (send_post_delay enc w k cs) AND RMT_ENCODING_COMPLETE \<noteq> 0
     \<Longrightarrow> state (encoder_after (send_post_delay enc w k cs)) = 0"
  by (simp add: send_post_delay_def Let_def flag_tests split: prod.splits if_splits)

lemma encode_keeps_phase:
  assumes "state enc = 0 \<or> state enc = 1"
  shows "state (encoder_after (rmt_encode_dshot_esc enc w cmd)) = 0
       \<or> state (encoder_after (rmt_encode_dshot_esc enc w cmd)) = 1"
proof -
  obtain n s w' where b: "bytes_call enc w cmd = (n, s, w')"
    by (cases "bytes_call enc w cmd") auto
  from assms show ?thesis
  proof
    assume "state enc = 1"
    then show ?thesis
      using send_post_delay_state [of enc w 0 "[]"]
      by (auto simp add: rmt_encode_dshot_esc_def)
  next
    assume z: "state enc = 0"
    show ?thesis
    proof (cases "s AND RMT_ENCODING_MEM_FULL \<noteq> 0")
      case True
      with z b show ?thesis by (simp add: rmt_encode_dshot_esc_def Let_def)
    next
      case False
      show ?thesis
      proof (cases "s AND RMT_ENCODING_COMPLETE \<noteq> 0")
        case True
        with z b False show ?thesis
          using send_post_delay_state [of "enc\<lparr>state := 1\<rparr>" w' n "[Bytes_encoder]"]
          by (simp add: rmt_encode_dshot_esc_def Let_def)
      next
        case c: False
        with z b False show ?thesis
          using send_post_delay_state [of enc w' n "[Bytes_encoder]"]
          by (simp add: rmt_encode_dshot_esc_def Let_def)
      qed
    qed
  qed
qed

lemma encode_complete_phase:
  assumes "ret_state (rmt_encode_dshot_esc enc w cmd) AND RMT_ENCODING_COMPLETE \<noteq> 0"
  shows "state (encoder_after (rmt_encode_dshot_esc enc w cmd)) = 0"
proof -
  obtain n s w' where b: "bytes_call enc w cmd = (n, s, w')"
    by (cases "bytes_call enc w cmd") auto
  show ?thesis
  proof (cases "state enc = 0")
    case z: True
    show ?thesis
    proof (cases "s AND RMT_ENCODING_MEM_FULL \<noteq> 0")
      case True
      with z b assms show ?thesis by (simp add: rmt_encode_dshot_esc_def Let_def flag_tests)
    next
      case False
      with z b assms show ?thesis
        using send_post_delay_complete [of "enc\<lparr>state := 1\<rparr>" w' n "[Bytes_encoder]"]
          send_post_delay_complete [of enc w' n "[Bytes_encoder]"]
        by (simp add: rmt_encode_dshot_esc_def Let_def split: if_splits)
    qed
  next
    case nz: False
    show ?thesis
    proof (cases "state enc = 1")
      case True
      with nz assms show ?thesis
        using send_post_delay_complete [of enc w 0 "[]"]
        by (simp add: rmt_encode_dshot_esc_def)
    next
      case False
      with nz assms show ?thesis by (simp add: rmt_encode_dshot_esc_def flag_tests)
    qed
  qed
qed

lemma constructed_phase:
  "ret_encoder (rmt_new_dshot_esc_encoder fp drv config given) = Some enc \<Longrightarrow> state enc = 0"
  by (auto simp add: rmt_new_dshot_esc_encoder_def Let_def
      split: option.splits if_splits sum.splits)

lemma reset_result:
  "rmt_dshot_encoder_reset enc w =
     (ESP_OK, enc\<lparr>state := 0\<rparr>, reset (copy_encoder enc) (reset (bytes_encoder enc) w))"
  by (simp add: rmt_dshot_encoder_reset_def Let_def flag_tests)

lemma reachable_phase:
  "reachable fp drv enc \<Longrightarrow> state enc = 0 \<or> state enc = 1"
proof (induction rule: reachable.induct)
  case (constructed config given enc)
  then show ?case by (simp add: constructed_phase)
next
  case (encoded enc w cmd)
  from encoded.IH show ?case by (rule encode_keeps_phase)
next
  case (was_reset enc w)
  show ?case by (simp add: reset_result)
qed

text \<open>
  C5. The phase of an encoder that a caller can hold is always 0 (awaiting the frame) or
  1 (awaiting the gap): this holds for every encoder that a construction has returned and
  for everything calls of \<^verbatim>\<open>encode\<close> and \<^verbatim>\<open>reset\<close> make of it. It is 0 for an
  encoder as the constructor returns it. It is 0 after any call of \<^verbatim>\<open>encode\<close> that
  reports Complete. A reset, from any state, sets it to 0 and resets both sub-encoders,
  the byte-stream encoder first, and returns \<^verbatim>\<open>ESP_OK\<close>.
\<close>

theorem phase_is_frame_or_gap:
  "(reachable fp drv enc \<longrightarrow> state enc = 0 \<or> state enc = 1)
 \<and> (ret_encoder (rmt_new_dshot_esc_encoder fp drv config given) = Some fresh
      \<longrightarrow> state fresh = 0)
 \<and> (ret_state (rmt_encode_dshot_esc e w cmd) AND RMT_ENCODING_COMPLETE \<noteq> 0
      \<longrightarrow> state (encoder_after (rmt_encode_dshot_esc e w cmd)) = 0)
 \<and> rmt_dshot_encoder_reset e' w' =
      (ESP_OK, e'\<lparr>state := 0\<rparr>, reset (copy_encoder e') (reset (bytes_encoder e') w'))"
  using reachable_phase [of fp drv enc] constructed_phase [of fp drv config given fresh]
    encode_complete_phase [of e w cmd] reset_result [of e' w']
  by blast

theorem phase_is_frame_or_gap_witness:
  "let drv = scripted_driver True None None :: (script, 15 word) rmt_driver;
       built = \<lparr>bytes_encoder = scripted_encoder, copy_encoder = scripted_encoder,
                dshot_delay_symbol = make_delay_symbol exact_arith dshot600_config,
                state = 0, bidirectional = False\<rparr>;
       cmd = \<lparr>throttle = 1046, telemetry_req = False\<rparr>;
       halfway = encoder_after (rmt_encode_dshot_esc built
                   [(16, RMT_ENCODING_COMPLETE OR RMT_ENCODING_MEM_FULL)] cmd);
       finished = rmt_encode_dshot_esc halfway [(1, RMT_ENCODING_COMPLETE)] cmd
   in ret_encoder (rmt_new_dshot_esc_encoder exact_arith drv (Some dshot600_config) True)
        = Some built
    \<and> reachable exact_arith drv halfway
    \<and> state halfway = 1
    \<and> ret_state finished AND RMT_ENCODING_COMPLETE \<noteq> 0
    \<and> state (encoder_after finished) = 0"
proof -
  let ?drv = "scripted_driver True None None :: (script, 15 word) rmt_driver"
  let ?built = "\<lparr>bytes_encoder = scripted_encoder, copy_encoder = scripted_encoder,
                dshot_delay_symbol = make_delay_symbol exact_arith dshot600_config,
                state = 0, bidirectional = False\<rparr> :: (script, 15 word) dshot_rmt_encoder_t"
  let ?cmd = "\<lparr>throttle = 1046, telemetry_req = False\<rparr>"
  let ?halfway = "encoder_after (rmt_encode_dshot_esc ?built
                   [(16, RMT_ENCODING_COMPLETE OR RMT_ENCODING_MEM_FULL)] ?cmd)"
  have new: "ret_encoder (rmt_new_dshot_esc_encoder exact_arith ?drv (Some dshot600_config) True)
               = Some ?built"
    by (simp add: rmt_new_dshot_esc_encoder_def scripted_driver_def dshot600_config_def Let_def)
  have reach: "reachable exact_arith ?drv ?halfway"
    by (rule reachable.encoded, rule reachable.constructed, rule new)
  have half: "state ?halfway \<noteq> 0"
    by (simp add: rmt_encode_dshot_esc_def scripted_encoder_def scripted_encode_def Let_def
        flag_tests)
  have fin: "ret_state (rmt_encode_dshot_esc ?halfway [(1, RMT_ENCODING_COMPLETE)] ?cmd)
               AND RMT_ENCODING_COMPLETE \<noteq> 0"
    by (simp add: rmt_encode_dshot_esc_def send_post_delay_def scripted_encoder_def
        scripted_encode_def Let_def flag_tests)
  show ?thesis
    using phase_is_frame_or_gap [where fp = exact_arith and drv = ?drv and enc = ?halfway
        and config = "Some dshot600_config" and given = True and fresh = ?built
        and e = ?halfway and w = "[(1, RMT_ENCODING_COMPLETE)]" and cmd = ?cmd
        and e' = ?built and w' = "[]"]
      new reach half fin
    by (simp only: Let_def) blast
qed

section \<open>Claims about construction\<close>

lemma error_codes_differ:
  "ESP_ERR_INVALID_ARG \<noteq> ESP_OK" "ESP_ERR_NO_MEM \<noteq> ESP_OK"
  "ESP_ERR_NO_MEM \<noteq> ESP_ERR_INVALID_ARG" "ESP_OK \<noteq> ESP_ERR_INVALID_ARG"
  by (simp_all add: ESP_OK_def ESP_ERR_NO_MEM_def ESP_ERR_INVALID_ARG_def)

text \<open>
  C7. Let the constructors of the two sub-encoders keep their contract: called with
  non-null arguments, as they are here, a failure is reported by a code other than
  \<^verbatim>\<open>ESP_OK\<close> and other than \<^verbatim>\<open>ESP_ERR_INVALID_ARG\<close>. Then the construction returns
  \<^verbatim>\<open>ESP_ERR_INVALID_ARG\<close> exactly when the configuration pointer or the result pointer
  is null; no value of the configuration has a part in it. It fails exactly on the paths
  listed: a null argument, no storage for the encoder, or a sub-encoder that cannot be
  created. Whenever it fails, nothing that was allocated is left unreleased and nothing
  is stored through the result pointer; when it succeeds, the encoder is stored and holds
  its storage and both sub-encoders.
\<close>

theorem construction_is_all_or_nothing:
  assumes "\<And>cfg e. rmt_new_bytes_encoder drv cfg = Inl e
             \<Longrightarrow> e \<noteq> ESP_OK \<and> e \<noteq> ESP_ERR_INVALID_ARG"
      and "\<And>e. rmt_new_copy_encoder drv = Inl e
             \<Longrightarrow> e \<noteq> ESP_OK \<and> e \<noteq> ESP_ERR_INVALID_ARG"
  shows "let r = rmt_new_dshot_esc_encoder fp drv config given
         in (ret r = ESP_ERR_INVALID_ARG \<longleftrightarrow> config = None \<or> \<not> given)
          \<and> (ret r \<noteq> ESP_OK \<longleftrightarrow>
                config = None \<or> \<not> given \<or> \<not> rmt_alloc_encoder_mem drv
                \<or> (\<exists>c e. config = Some c
                       \<and> rmt_new_bytes_encoder drv (bytes_encoder_config fp c) = Inl e)
                \<or> (\<exists>e. rmt_new_copy_encoder drv = Inl e))
          \<and> (ret r \<noteq> ESP_OK \<longrightarrow> live r = {} \<and> ret_encoder r = None)
          \<and> (ret r = ESP_OK \<longrightarrow>
                ret_encoder r \<noteq> None
                \<and> live r = {Encoder_storage, Bytes_encoder_object, Copy_encoder_object})"
proof (cases config)
  case None
  then show ?thesis
    by (simp add: rmt_new_dshot_esc_encoder_def err_cleanup_def error_codes_differ)
next
  case (Some c)
  show ?thesis
  proof (cases "given \<and> rmt_alloc_encoder_mem drv")
    case False
    with Some show ?thesis
      by (auto simp add: rmt_new_dshot_esc_encoder_def err_cleanup_def error_codes_differ)
  next
    case True
    show ?thesis
    proof (cases "rmt_new_bytes_encoder drv (bytes_encoder_config fp c)")
      case (Inl e)
      with Some True assms(1) [OF Inl] show ?thesis
        by (simp add: rmt_new_dshot_esc_encoder_def err_cleanup_def Let_def)
    next
      case (Inr b)
      show ?thesis
      proof (cases "rmt_new_copy_encoder drv")
        case (Inl e)
        with Some True Inr assms(2) [OF Inl] show ?thesis
          by (simp add: rmt_new_dshot_esc_encoder_def err_cleanup_def Let_def)
      next
        case cp: (Inr cpy)
        with Some True Inr show ?thesis
          by (auto simp add: rmt_new_dshot_esc_encoder_def Let_def error_codes_differ)
      qed
    qed
  qed
qed

theorem construction_is_all_or_nothing_witness:
  "let r = rmt_new_dshot_esc_encoder exact_arith
             (scripted_driver True None (Some ESP_ERR_NO_MEM) :: (script, 15 word) rmt_driver)
             (Some dshot600_config) True
   in ret r = ESP_ERR_NO_MEM \<and> ret r \<noteq> ESP_ERR_INVALID_ARG \<and> ret r \<noteq> ESP_OK
    \<and> live r = {} \<and> ret_encoder r = None"
  using construction_is_all_or_nothing [of
      "scripted_driver True None (Some ESP_ERR_NO_MEM) :: (script, 15 word) rmt_driver"
      exact_arith "Some dshot600_config" True]
  by (simp add: scripted_driver_def error_codes_differ Let_def rmt_new_dshot_esc_encoder_def)

section \<open>The bit timing\<close>

lemma rounding_step:
  assumes r: "rounds_to_nearest r p emax"
      and range: "1 / 2 ^ (emax - 1) \<le> lo" "hi \<le> 2 ^ emax"
      and x: "lo \<le> x" "x \<le> hi"
  shows "lo - hi / 2 ^ p \<le> r x \<and> r x \<le> hi + hi / 2 ^ p"
proof -
  have "(0::real) < 1 / 2 ^ (emax - 1)" by simp
  with range(1) x(1) have pos: "0 < x" by linarith
  then have ax: "\<bar>x\<bar> = x" by simp
  have small: "1 / 2 ^ (emax - 1) \<le> \<bar>x\<bar>" using range(1) x(1) ax by linarith
  have large: "\<bar>x\<bar> \<le> 2 ^ emax" using range(2) x(2) ax by linarith
  from r have "1 / 2 ^ (emax - 1) \<le> \<bar>x\<bar> \<and> \<bar>x\<bar> \<le> 2 ^ emax \<longrightarrow> \<bar>r x - x\<bar> \<le> \<bar>x\<bar> / 2 ^ p"
    unfolding rounds_to_nearest_def by (rule spec)
  with small large have "\<bar>r x - x\<bar> \<le> \<bar>x\<bar> / 2 ^ p" by simp
  then have e: "\<bar>r x - x\<bar> \<le> x / 2 ^ p" by (simp only: ax)
  have "x / 2 ^ p \<le> hi / 2 ^ p"
    using x(2) by (simp add: divide_right_mono)
  with e have "\<bar>r x - x\<bar> \<le> hi / 2 ^ p" by linarith
  with x show ?thesis by linarith
qed

lemma float_step:
  assumes "ieee_754 fp" and "lo \<le> x" and "x \<le> hi" and "1 / 4 \<le> lo" and "hi \<le> 2 ^ 26"
  shows "lo - hi / 2 ^ 24 \<le> to_float fp x \<and> to_float fp x \<le> hi + hi / 2 ^ 24"
proof -
  have r: "rounds_to_nearest (to_float fp) 24 127"
    using assms(1) by (simp add: ieee_754_def)
  have "(1::real) / 2 ^ (127 - 1) \<le> 1 / 4" by simp
  with assms(4) have small: "1 / 2 ^ (127 - 1) \<le> lo" by linarith
  have "(2::real) ^ 26 \<le> 2 ^ 127" by (rule power_increasing) simp_all
  with assms(5) have large: "hi \<le> 2 ^ 127" by linarith
  show ?thesis by (rule rounding_step [OF r small large assms(2) assms(3)])
qed

lemma double_step:
  assumes "ieee_754 fp" and "lo \<le> x" and "x \<le> hi" and "1 / 4 \<le> lo" and "hi \<le> 2 ^ 26"
  shows "lo - hi / 2 ^ 53 \<le> to_double fp x \<and> to_double fp x \<le> hi + hi / 2 ^ 53"
proof -
  have r: "rounds_to_nearest (to_double fp) 53 1023"
    using assms(1) by (simp add: ieee_754_def)
  have "(2::real) ^ 2 \<le> 2 ^ (1023 - 1)" by (rule power_increasing) simp_all
  then have "(1::real) / 2 ^ (1023 - 1) \<le> 1 / 2 ^ 2" by (intro frac_le) simp_all
  with assms(4) have small: "1 / 2 ^ (1023 - 1) \<le> lo" by simp
  have "(2::real) ^ 26 \<le> 2 ^ 1023" by (rule power_increasing) simp_all
  with assms(5) have large: "hi \<le> 2 ^ 1023" by linarith
  show ?thesis by (rule rounding_step [OF r small large assms(2) assms(3)])
qed

lemma trunc_uint_between:
  assumes "real k \<le> x" and "x < real k + 1" and "k < 2 ^ 32"
  shows "trunc_uint x = word_of_nat k" and "unat (trunc_uint x) = k"
proof -
  from assms(1) have nonneg: "0 \<le> x" using of_nat_0_le_iff [of k] by linarith
  have "\<lfloor>x\<rfloor> = int k"
    using assms(1,2) by (intro floor_unique) simp_all
  with nonneg show w: "trunc_uint x = word_of_nat k" by (simp add: trunc_uint_def)
  from assms(3) show "unat (trunc_uint x) = k" by (simp add: w unat_of_nat)
qed

lemma dshot600_period:
  assumes "ieee_754 fp" and "resolution c = 40000000" and "baud_rate c = 600000"
  shows "66.6666 \<le> period_ticks fp c \<and> period_ticks fp c \<le> 66.6667"
proof -
  have a: "39999997 \<le> to_float fp 40000000 \<and> to_float fp 40000000 \<le> 40000003"
    using float_step [OF assms(1), of 40000000 40000000 40000000] by simp
  have b: "599999.9 \<le> to_float fp 600000 \<and> to_float fp 600000 \<le> 600000.1"
    using float_step [OF assms(1), of 600000 600000 600000] by simp
  have lo: "39999997 / 600000.1 \<le> to_float fp 40000000 / to_float fp 600000"
    using a b by (intro frac_le) simp_all
  have hi: "to_float fp 40000000 / to_float fp 600000 \<le> 40000003 / 599999.9"
    using a b by (intro frac_le) simp_all
  have "39999997 / 600000.1 - (40000003 / 599999.9) / 2 ^ 24
          \<le> to_float fp (to_float fp 40000000 / to_float fp 600000)
      \<and> to_float fp (to_float fp 40000000 / to_float fp 600000)
          \<le> 40000003 / 599999.9 + (40000003 / 599999.9) / 2 ^ 24"
    using lo hi by (intro float_step [OF assms(1)]) simp_all
  then show ?thesis
    by (simp add: period_ticks_def assms(2,3))
qed

lemma dshot600_t1h:
  assumes "ieee_754 fp" and "resolution c = 40000000" and "baud_rate c = 600000"
  shows "49.89 \<le> to_double fp (period_ticks fp c * to_double fp (7485 / 10000))
       \<and> to_double fp (period_ticks fp c * to_double fp (7485 / 10000)) \<le> 49.91"
    and "t1h_ticks fp c = 49"
proof -
  note p = dshot600_period [OF assms]
  have k: "0.7484 \<le> to_double fp (7485 / 10000) \<and> to_double fp (7485 / 10000) \<le> 0.7486"
    using double_step [OF assms(1), of "7485 / 10000" "7485 / 10000" "7485 / 10000"] by simp
  have k': "7485 / 10000 - (7485 / 10000) / 2 ^ 53 \<le> to_double fp (7485 / 10000)
      \<and> to_double fp (7485 / 10000) \<le> 7485 / 10000 + (7485 / 10000) / 2 ^ 53"
    using double_step [OF assms(1), of "7485 / 10000" "7485 / 10000" "7485 / 10000"] by simp
  have lo: "66.6666 * (7485 / 10000 - (7485 / 10000) / 2 ^ 53)
              \<le> period_ticks fp c * to_double fp (7485 / 10000)"
    using p k' by (intro mult_mono) simp_all
  have hi: "period_ticks fp c * to_double fp (7485 / 10000)
              \<le> 66.6667 * (7485 / 10000 + (7485 / 10000) / 2 ^ 53)"
    using p k k' by (intro mult_mono) simp_all
  have "66.6666 * (7485 / 10000 - (7485 / 10000) / 2 ^ 53)
            - (66.6667 * (7485 / 10000 + (7485 / 10000) / 2 ^ 53)) / 2 ^ 53
          \<le> to_double fp (period_ticks fp c * to_double fp (7485 / 10000))
      \<and> to_double fp (period_ticks fp c * to_double fp (7485 / 10000))
          \<le> 66.6667 * (7485 / 10000 + (7485 / 10000) / 2 ^ 53)
            + (66.6667 * (7485 / 10000 + (7485 / 10000) / 2 ^ 53)) / 2 ^ 53"
    using lo hi by (intro double_step [OF assms(1)]) simp_all
  then show b: "49.89 \<le> to_double fp (period_ticks fp c * to_double fp (7485 / 10000))
       \<and> to_double fp (period_ticks fp c * to_double fp (7485 / 10000)) \<le> 49.91"
    by simp
  show "t1h_ticks fp c = 49"
    unfolding t1h_ticks_def
    using trunc_uint_between(1) [of 49 "to_double fp (period_ticks fp c * to_double fp (7485 / 10000))"] b
    by simp
qed

lemma dshot600_t0h:
  assumes "ieee_754 fp" and "resolution c = 40000000" and "baud_rate c = 600000"
  shows "24.94 \<le> to_double fp (period_ticks fp c * to_double fp (37425 / 100000))
       \<and> to_double fp (period_ticks fp c * to_double fp (37425 / 100000)) \<le> 24.96"
    and "t0h_ticks fp c = 24"
proof -
  note p = dshot600_period [OF assms]
  have k: "0.3742 \<le> to_double fp (37425 / 100000) \<and> to_double fp (37425 / 100000) \<le> 0.3743"
    using double_step [OF assms(1), of "37425 / 100000" "37425 / 100000" "37425 / 100000"]
    by simp
  have k': "37425 / 100000 - (37425 / 100000) / 2 ^ 53 \<le> to_double fp (37425 / 100000)
      \<and> to_double fp (37425 / 100000) \<le> 37425 / 100000 + (37425 / 100000) / 2 ^ 53"
    using double_step [OF assms(1), of "37425 / 100000" "37425 / 100000" "37425 / 100000"]
    by simp
  have lo: "66.6666 * (37425 / 100000 - (37425 / 100000) / 2 ^ 53)
              \<le> period_ticks fp c * to_double fp (37425 / 100000)"
    using p k' by (intro mult_mono) simp_all
  have hi: "period_ticks fp c * to_double fp (37425 / 100000)
              \<le> 66.6667 * (37425 / 100000 + (37425 / 100000) / 2 ^ 53)"
    using p k k' by (intro mult_mono) simp_all
  have "66.6666 * (37425 / 100000 - (37425 / 100000) / 2 ^ 53)
            - (66.6667 * (37425 / 100000 + (37425 / 100000) / 2 ^ 53)) / 2 ^ 53
          \<le> to_double fp (period_ticks fp c * to_double fp (37425 / 100000))
      \<and> to_double fp (period_ticks fp c * to_double fp (37425 / 100000))
          \<le> 66.6667 * (37425 / 100000 + (37425 / 100000) / 2 ^ 53)
            + (66.6667 * (37425 / 100000 + (37425 / 100000) / 2 ^ 53)) / 2 ^ 53"
    using lo hi by (intro double_step [OF assms(1)]) simp_all
  then show b: "24.94 \<le> to_double fp (period_ticks fp c * to_double fp (37425 / 100000))
       \<and> to_double fp (period_ticks fp c * to_double fp (37425 / 100000)) \<le> 24.96"
    by simp
  show "t0h_ticks fp c = 24"
    unfolding t0h_ticks_def
    using trunc_uint_between(1) [of 24 "to_double fp (period_ticks fp c * to_double fp (37425 / 100000))"] b
    by simp
qed

lemma low_ticks:
  assumes fp: "ieee_754 fp"
      and p: "66.6666 \<le> period \<and> period \<le> 66.6667"
      and h: "h = 49 \<or> h = 24"
  shows "trunc_uint (to_float fp (period - to_float fp (real h))) = word_of_nat (66 - h)"
proof -
  from h have hr: "24 \<le> real h \<and> real h \<le> 49" by auto
  have f: "real h - 0.00001 \<le> to_float fp (real h) \<and> to_float fp (real h) \<le> real h + 0.00001"
    using float_step [OF fp, of "real h" "real h" "real h"] hr by simp
  have d: "66.66659 - real h \<le> period - to_float fp (real h)
      \<and> period - to_float fp (real h) \<le> 66.66671 - real h"
    using p f by simp
  have "(66.66659 - real h) - (66.66671 - real h) / 2 ^ 24
          \<le> to_float fp (period - to_float fp (real h))
      \<and> to_float fp (period - to_float fp (real h))
          \<le> (66.66671 - real h) + (66.66671 - real h) / 2 ^ 24"
    using d hr by (intro float_step [OF fp]) simp_all
  then have "real (66 - h) \<le> to_float fp (period - to_float fp (real h))
      \<and> to_float fp (period - to_float fp (real h)) < real (66 - h) + 1"
    using h by auto
  then show ?thesis
    using h by (intro trunc_uint_between(1)) auto
qed

lemma dshot600_lows:
  assumes "ieee_754 fp" and "resolution c = 40000000" and "baud_rate c = 600000"
  shows "t1l_ticks fp c = 17" and "t0l_ticks fp c = 42"
proof -
  note p = dshot600_period [OF assms]
  show "t1l_ticks fp c = 17"
    using low_ticks [OF assms(1) p, of 49]
    by (simp add: t1l_ticks_def dshot600_t1h(2) [OF assms])
  show "t0l_ticks fp c = 42"
    using low_ticks [OF assms(1) p, of 24]
    by (simp add: t0l_ticks_def dshot600_t0h(2) [OF assms])
qed

lemma small_duration_fits:
  fixes v :: "32 word"
  assumes "6 \<le> LENGTH('n::len)" and "unat v < 64"
  shows "unat (ucast v :: 'n word) = unat v"
proof -
  have "(2::nat) ^ 6 \<le> 2 ^ LENGTH('n)"
    using assms(1) by (rule power_increasing) simp
  with assms(2) have "unat v < 2 ^ LENGTH('n)" by simp
  then show ?thesis by (simp add: unsigned_ucast_eq take_bit_nat_eq_self)
qed

text \<open>
  C9. With a resolution of 40,000,000 Hz and a baud rate of 600,000, and with the two
  roundings those of binary32 and binary64, the bit period is 66.67 ticks to two
  decimals. The high time of a 1 bit is the truncation of a product that lies between
  49.89 and 49.91, the 50 ticks of the claim up to rounding: 49 ticks as the code
  truncates it, one tick below 50. Its low time is 17 ticks. The high time of a 0 bit
  is the truncation of a product between 24.94 and 24.96, the 25 ticks of the claim up
  to rounding: 24 ticks, one tick below 25. Its low time is 42 ticks. Each low time is
  the truncation of the period less the truncated high time. Both symbols start high and
  end low, the bit order is most significant bit first, and these are the durations that
  reach the symbols whenever the duration field has at least 6 bits.
\<close>

theorem dshot600_bit_timing:
  assumes "ieee_754 fp" and "resolution c = 40000000" and "baud_rate c = 600000"
      and "6 \<le> LENGTH('n::len)"
  shows "let cfg = bytes_encoder_config fp c :: 'n word rmt_bytes_encoder_config_t;
             high1 = to_double fp (period_ticks fp c * to_double fp (7485 / 10000));
             high0 = to_double fp (period_ticks fp c * to_double fp (37425 / 100000))
         in \<bar>period_ticks fp c - 66.67\<bar> < 0.005
          \<and> \<bar>high1 - 50\<bar> < 0.5 \<and> t1h_ticks fp c = trunc_uint high1 \<and> t1h_ticks fp c = 49
          \<and> \<bar>high0 - 25\<bar> < 0.5 \<and> t0h_ticks fp c = trunc_uint high0 \<and> t0h_ticks fp c = 24
          \<and> t1l_ticks fp c = 17 \<and> t0l_ticks fp c = 42
          \<and> unat (duration0 (bit1 cfg)) = 49 \<and> unat (duration1 (bit1 cfg)) = 17
          \<and> unat (duration0 (bit0 cfg)) = 24 \<and> unat (duration1 (bit0 cfg)) = 42
          \<and> level0 (bit1 cfg) = 1 \<and> level1 (bit1 cfg) = 0
          \<and> level0 (bit0 cfg) = 1 \<and> level1 (bit0 cfg) = 0
          \<and> msb_first cfg = 1"
proof -
  note a = assms(1-3)
  note p = dshot600_period [OF a]
  note h1 = dshot600_t1h [OF a]
  note h0 = dshot600_t0h [OF a]
  note lows = dshot600_lows [OF a]
  have d: "unat (ucast (49 :: 32 word) :: 'n word) = 49"
    "unat (ucast (17 :: 32 word) :: 'n word) = 17"
    "unat (ucast (24 :: 32 word) :: 'n word) = 24"
    "unat (ucast (42 :: 32 word) :: 'n word) = 42"
    using small_duration_fits [OF assms(4), of 49] small_duration_fits [OF assms(4), of 17]
      small_duration_fits [OF assms(4), of 24] small_duration_fits [OF assms(4), of 42]
    by simp_all
  have near: "\<bar>period_ticks fp c - 66.67\<bar> < 0.005" using p by (simp add: abs_less_iff)
  have near1: "\<bar>to_double fp (period_ticks fp c * to_double fp (7485 / 10000)) - 50\<bar> < 0.5"
    using h1(1) by (simp add: abs_less_iff)
  have near0: "\<bar>to_double fp (period_ticks fp c * to_double fp (37425 / 100000)) - 25\<bar> < 0.5"
    using h0(1) by (simp add: abs_less_iff)
  have def1: "t1h_ticks fp c
      = trunc_uint (to_double fp (period_ticks fp c * to_double fp (7485 / 10000)))"
    by (simp only: t1h_ticks_def)
  have def0: "t0h_ticks fp c
      = trunc_uint (to_double fp (period_ticks fp c * to_double fp (37425 / 100000)))"
    by (simp only: t0h_ticks_def)
  show ?thesis
    unfolding Let_def
    apply (intro conjI)
    apply (rule near)
    apply (rule near1)
    apply (rule def1)
    apply (rule h1(2))
    apply (rule near0)
    apply (rule def0)
    apply (rule h0(2))
    apply (rule lows(1))
    apply (rule lows(2))
    apply (simp_all only: bytes_encoder_config_def h1(2) h0(2) lows d
        rmt_bytes_encoder_config_t.simps rmt_symbol_word_t.simps)
    done
qed

theorem dshot600_bit_timing_witness:
  "let cfg = bytes_encoder_config exact_arith dshot600_config :: 15 word rmt_bytes_encoder_config_t
   in ieee_754 exact_arith
    \<and> period_ticks exact_arith dshot600_config = 200 / 3
    \<and> bit1 cfg = \<lparr>duration0 = 49, level0 = 1, duration1 = 17, level1 = 0\<rparr>
    \<and> bit0 cfg = \<lparr>duration0 = 24, level0 = 1, duration1 = 42, level1 = 0\<rparr>
    \<and> msb_first cfg = 1"
proof -
  have ieee: "ieee_754 exact_arith"
    by (simp add: ieee_754_def rounds_to_nearest_def exact_arith_def)
  have period: "period_ticks exact_arith dshot600_config = 200 / 3"
    by (simp add: period_ticks_def exact_arith_def dshot600_config_def)
  have c: "resolution dshot600_config = 40000000" "baud_rate dshot600_config = 600000"
    by (simp_all add: dshot600_config_def)
  have len: "6 \<le> LENGTH(15)" by simp
  have t: "t1h_ticks exact_arith dshot600_config = 49 \<and> t0h_ticks exact_arith dshot600_config = 24
      \<and> t1l_ticks exact_arith dshot600_config = 17 \<and> t0l_ticks exact_arith dshot600_config = 42"
    using dshot600_bit_timing [OF ieee c len] unfolding Let_def by blast
  show ?thesis
    using ieee period t by (simp add: bytes_encoder_config_def Let_def)
qed

section \<open>The gap symbol\<close>

lemma unat_trunc_uint:
  assumes "0 \<le> x" and "x < 2 ^ 32"
  shows "unat (trunc_uint x) = nat \<lfloor>x\<rfloor>"
proof -
  from assms(1) have nonneg: "0 \<le> \<lfloor>x\<rfloor>" by simp
  from assms(2) have "\<lfloor>x\<rfloor> < 2 ^ 32" by (simp add: floor_less_iff)
  with nonneg have "nat \<lfloor>x\<rfloor> < 2 ^ 32" by (simp add: nat_less_iff)
  then have "unat (word_of_nat (nat \<lfloor>x\<rfloor>) :: 32 word) = nat \<lfloor>x\<rfloor>"
    by (simp add: unat_of_nat)
  moreover from nonneg have "(word_of_nat (nat \<lfloor>x\<rfloor>) :: 32 word) = word_of_int \<lfloor>x\<rfloor>"
    by simp
  ultimately show ?thesis using assms(1) by (simp add: trunc_uint_def)
qed

lemma constructed_symbol:
  "ret_encoder (rmt_new_dshot_esc_encoder fp drv (Some c) given) = Some enc
     \<Longrightarrow> dshot_delay_symbol enc = make_delay_symbol fp c"
  by (auto simp add: rmt_new_dshot_esc_encoder_def Let_def split: if_splits sum.splits)

lemma unat_half_word: "unat (w div 2 :: 32 word) = unat w div 2"
  by (simp add: unat_div)

lemma unat_stored_duration:
  fixes v :: "32 word"
  assumes "unat v < 2 ^ LENGTH('n::len)"
  shows "unat (ucast v :: 'n word) = unat v"
  using assms by (simp add: unsigned_ucast_eq take_bit_nat_eq_self)

lemma double_step_wide:
  assumes "ieee_754 fp" and "lo \<le> x" and "x \<le> hi" and "1 / 2 ^ 40 \<le> lo" and "hi \<le> 2 ^ 40"
  shows "lo - hi / 2 ^ 53 \<le> to_double fp x \<and> to_double fp x \<le> hi + hi / 2 ^ 53"
proof -
  have r: "rounds_to_nearest (to_double fp) 53 1023"
    using assms(1) by (simp add: ieee_754_def)
  have "(2::real) ^ 40 \<le> 2 ^ (1023 - 1)" by (rule power_increasing) simp_all
  then have "(1::real) / 2 ^ (1023 - 1) \<le> 1 / 2 ^ 40" by (intro frac_le) simp_all
  with assms(4) have small: "1 / 2 ^ (1023 - 1) \<le> lo" by linarith
  have "(2::real) ^ 40 \<le> 2 ^ 1023" by (rule power_increasing) simp_all
  with assms(5) have large: "hi \<le> 2 ^ 1023" by linarith
  show ?thesis by (rule rounding_step [OF r small large assms(2) assms(3)])
qed

lemma real_unat_32: "real (unat (w :: 32 word)) \<le> 2 ^ 32 - 1"
proof -
  have "unat w < 2 ^ 32" using unsigned_less [of w, where ?'a = nat] by simp
  then have "unat w \<le> 2 ^ 32 - 1" by simp
  then have "real (unat w) \<le> real (2 ^ 32 - 1)" by (simp only: of_nat_le_iff)
  then show ?thesis by simp
qed

lemma delay_ticks_double_close:
  assumes ieee: "ieee_754 fp" and zero: "to_double fp 0 = 0"
      and range: "real (unat (resolution c)) / 1000000 * real (unat (post_delay_us c)) \<le> 2 ^ 32 - 1"
  shows "real (unat (resolution c)) / 1000000 * real (unat (post_delay_us c)) - 96 / 10 ^ 8
           \<le> delay_ticks_double fp c
       \<and> delay_ticks_double fp c
           \<le> real (unat (resolution c)) / 1000000 * real (unat (post_delay_us c)) + 96 / 10 ^ 8
       \<and> 0 \<le> delay_ticks_double fp c"
proof (cases "unat (resolution c) = 0 \<or> unat (post_delay_us c) = 0")
  case True
  then have "resolution c = 0 \<or> post_delay_us c = 0"
    by (simp add: unsigned_eq_0_iff)
  then show ?thesis by (auto simp add: delay_ticks_double_def zero)
next
  case False
  define R where "R = real (unat (resolution c))"
  define P where "P = real (unat (post_delay_us c))"
  define q where "q = to_double fp (R / 1000000)"
  define exact where "exact = R / 1000000 * P"
  from False have n: "1 \<le> unat (resolution c)" "1 \<le> unat (post_delay_us c)" by simp_all
  have R1: "1 \<le> R" unfolding R_def using n(1) by (metis of_nat_1 of_nat_le_iff)
  have P1: "1 \<le> P" unfolding P_def using n(2) by (metis of_nat_1 of_nat_le_iff)
  have R32: "R \<le> 2 ^ 32 - 1" and P32: "P \<le> 2 ^ 32 - 1"
    unfolding R_def P_def by (rule real_unat_32)+
  have qb: "R / 1000000 - (R / 1000000) / 2 ^ 53 \<le> q \<and> q \<le> R / 1000000 + (R / 1000000) / 2 ^ 53"
    unfolding q_def using R1 R32 by (intro double_step_wide [OF ieee]) simp_all
  have P0: "0 \<le> P" using P1 by simp
  have lo: "exact - exact / 2 ^ 53 \<le> q * P"
  proof -
    have "(R / 1000000 - (R / 1000000) / 2 ^ 53) * P \<le> q * P"
      using qb P0 by (intro mult_right_mono) simp_all
    then show ?thesis by (simp add: exact_def algebra_simps)
  qed
  have hi: "q * P \<le> exact + exact / 2 ^ 53"
  proof -
    have "q * P \<le> (R / 1000000 + (R / 1000000) / 2 ^ 53) * P"
      using qb P0 by (intro mult_right_mono) simp_all
    then show ?thesis by (simp add: exact_def algebra_simps)
  qed
  have ex_lo: "1 / 1000000 \<le> exact"
  proof -
    have "1 / 1000000 * 1 \<le> R / 1000000 * P"
      using R1 P1 by (intro mult_mono) simp_all
    then show ?thesis by (simp add: exact_def)
  qed
  have ex_hi: "exact \<le> 2 ^ 32 - 1" using range by (simp add: exact_def R_def P_def)
  have "exact - exact / 2 ^ 53 - (exact + exact / 2 ^ 53) / 2 ^ 53 \<le> to_double fp (q * P)
      \<and> to_double fp (q * P) \<le> exact + exact / 2 ^ 53 + (exact + exact / 2 ^ 53) / 2 ^ 53"
    using lo hi ex_lo ex_hi by (intro double_step_wide [OF ieee]) simp_all
  then have "exact - 96 / 10 ^ 8 \<le> to_double fp (q * P)
      \<and> to_double fp (q * P) \<le> exact + 96 / 10 ^ 8 \<and> 0 \<le> to_double fp (q * P)"
    using ex_lo ex_hi by simp
  then show ?thesis
    by (simp add: delay_ticks_double_def q_def exact_def R_def P_def)
qed

lemma floor_near_millionths:
  fixes y :: real and N :: nat
  assumes lo: "real N / 1000000 - 96 / 10 ^ 8 \<le> y"
      and hi: "y \<le> real N / 1000000 + 96 / 10 ^ 8"
      and pos: "0 \<le> y"
  shows "nat \<lfloor>y\<rfloor> = nat \<lfloor>real N / 1000000\<rfloor> \<or> nat \<lfloor>y\<rfloor> + 1 = nat \<lfloor>real N / 1000000\<rfloor>"
proof -
  define k where "k = N div 1000000"
  have split: "N = k * 1000000 + N mod 1000000" by (simp add: k_def)
  have "N mod 1000000 < 1000000" by simp
  then have m: "N mod 1000000 \<le> 999999" by simp
  have "real N = real k * 1000000 + real (N mod 1000000)"
    using split by (metis of_nat_add of_nat_mult of_nat_numeral)
  moreover have "real (N mod 1000000) \<le> 999999" using m by simp
  moreover have "0 \<le> real (N mod 1000000)" by simp
  ultimately have kb: "real k \<le> real N / 1000000 \<and> real N / 1000000 \<le> real k + 1 - 1 / 1000000"
    by (simp add: field_simps)
  have fe: "\<lfloor>real N / 1000000\<rfloor> = int k"
    using kb by (intro floor_unique) simp_all
  have "y < real k + 1" using hi kb by simp
  then have "y < of_int (int k + 1)" by simp
  then have "\<lfloor>y\<rfloor> < int k + 1" by (simp only: floor_less_iff)
  then have up: "\<lfloor>y\<rfloor> \<le> int k" by simp
  have "real k - 1 \<le> y" using lo kb by simp
  then have "of_int (int k - 1) \<le> y" by simp
  then have low: "int k - 1 \<le> \<lfloor>y\<rfloor>" by (simp only: le_floor_iff)
  have nonneg: "0 \<le> \<lfloor>y\<rfloor>" using pos by simp
  from up low nonneg show ?thesis by (simp add: fe) linarith
qed

lemma delay_ticks_near_exact:
  assumes "ieee_754 fp" and "to_double fp 0 = 0"
      and "real (unat (resolution c)) / 1000000 * real (unat (post_delay_us c)) \<le> 2 ^ 32 - 1"
  shows "unat (delay_ticks fp c)
           = nat \<lfloor>real (unat (resolution c)) / 1000000 * real (unat (post_delay_us c))\<rfloor>
       \<or> unat (delay_ticks fp c) + 1
           = nat \<lfloor>real (unat (resolution c)) / 1000000 * real (unat (post_delay_us c))\<rfloor>"
proof -
  define N where "N = unat (resolution c) * unat (post_delay_us c)"
  have exact: "real (unat (resolution c)) / 1000000 * real (unat (post_delay_us c))
                 = real N / 1000000"
    by (simp add: N_def)
  note close = delay_ticks_double_close [OF assms]
  have lo: "real N / 1000000 - 96 / 10 ^ 8 \<le> delay_ticks_double fp c"
    and hi: "delay_ticks_double fp c \<le> real N / 1000000 + 96 / 10 ^ 8"
    and pos: "0 \<le> delay_ticks_double fp c"
    using close by (simp_all only: exact)
  have "real N / 1000000 \<le> 2 ^ 32 - 1" using assms(3) by (simp only: exact)
  with hi have "delay_ticks_double fp c < 2 ^ 32" by simp
  with pos have "unat (delay_ticks fp c) = nat \<lfloor>delay_ticks_double fp c\<rfloor>"
    by (simp add: delay_ticks_def unat_trunc_uint)
  with floor_near_millionths [OF lo hi pos] show ?thesis
    by (simp only: exact)
qed

text \<open>
  C8, as amended. The gap symbol of a constructed encoder has level 0 in both halves
  and the same duration in both, for every configuration: each duration is
  \<^verbatim>\<open>delay_ticks / 2\<close>, rounded down, reduced to the width of the duration field.
  \<^verbatim>\<open>delay_ticks\<close> is the truncation of \<^verbatim>\<open>resolution / 1e6 * post_delay_us\<close> as computed in
  \<^verbatim>\<open>double\<close>, where the quotient and the product are each rounded: whenever the exact
  product has a truncation in \<^verbatim>\<open>uint32_t\<close>, \<^verbatim>\<open>delay_ticks\<close> is the truncation of the
  exact product or one tick less. For every configuration whose half tick count fits
  the duration field, each duration is \<^verbatim>\<open>delay_ticks\<close> divided by 2 and rounded down, so
  the gap lasts twice that: one tick less than \<^verbatim>\<open>delay_ticks\<close> when it is odd, and
  \<^verbatim>\<open>delay_ticks\<close> itself when it is even.
\<close>

theorem gap_symbol_is_two_equal_halves:
  fixes enc :: "('w, ('n::len) word) dshot_rmt_encoder_t"
  assumes "ret_encoder (rmt_new_dshot_esc_encoder fp drv (Some c) given) = Some enc"
  shows "let s = dshot_delay_symbol enc;
             ticks = unat (delay_ticks fp c);
             exact = real (unat (resolution c)) / 1000000 * real (unat (post_delay_us c))
         in level0 s = 0 \<and> level1 s = 0 \<and> duration0 s = duration1 s
          \<and> unat (duration0 s) = (ticks div 2) mod 2 ^ LENGTH('n)
          \<and> (0 \<le> delay_ticks_double fp c \<and> delay_ticks_double fp c < 2 ^ 32
               \<longrightarrow> ticks = nat \<lfloor>delay_ticks_double fp c\<rfloor>)
          \<and> (ieee_754 fp \<and> to_double fp 0 = 0 \<and> exact \<le> 2 ^ 32 - 1
               \<longrightarrow> ticks = nat \<lfloor>exact\<rfloor> \<or> ticks + 1 = nat \<lfloor>exact\<rfloor>)
          \<and> (ticks div 2 < 2 ^ LENGTH('n)
               \<longrightarrow> unat (duration0 s) = ticks div 2
                 \<and> unat (duration1 s) = ticks div 2
                 \<and> unat (duration0 s) + unat (duration1 s) = 2 * (ticks div 2)
                 \<and> (odd ticks \<longrightarrow> unat (duration0 s) + unat (duration1 s) = ticks - 1)
                 \<and> (even ticks \<longrightarrow> unat (duration0 s) + unat (duration1 s) = ticks))"
proof -
  let ?ticks = "unat (delay_ticks fp c)"
  let ?exact = "real (unat (resolution c)) / 1000000 * real (unat (post_delay_us c))"
  have sym: "dshot_delay_symbol enc = (make_delay_symbol fp c :: 'n word rmt_symbol_word_t)"
    using assms by (rule constructed_symbol)
  have shape: "level0 (dshot_delay_symbol enc) = 0 \<and> level1 (dshot_delay_symbol enc) = 0
      \<and> duration0 (dshot_delay_symbol enc) = duration1 (dshot_delay_symbol enc)"
    by (simp add: sym make_delay_symbol_def)
  have stored: "unat (duration0 (dshot_delay_symbol enc)) = (?ticks div 2) mod 2 ^ LENGTH('n)"
  proof -
    have "unat (ucast (delay_ticks fp c div 2) :: 'n word)
            = unat (delay_ticks fp c div 2) mod 2 ^ LENGTH('n)"
      by (simp add: unsigned_ucast_eq take_bit_eq_mod)
    then show ?thesis by (simp only: sym make_delay_symbol_def unat_half_word
          rmt_symbol_word_t.simps)
  qed
  have trunc: "?ticks = nat \<lfloor>delay_ticks_double fp c\<rfloor>"
    if "0 \<le> delay_ticks_double fp c \<and> delay_ticks_double fp c < 2 ^ 32"
    using that by (simp add: delay_ticks_def unat_trunc_uint)
  have near: "?ticks = nat \<lfloor>?exact\<rfloor> \<or> ?ticks + 1 = nat \<lfloor>?exact\<rfloor>"
    if "ieee_754 fp \<and> to_double fp 0 = 0 \<and> ?exact \<le> 2 ^ 32 - 1"
    using that by (intro delay_ticks_near_exact) simp_all
  have halves: "unat (duration0 (dshot_delay_symbol enc)) = ?ticks div 2
      \<and> unat (duration1 (dshot_delay_symbol enc)) = ?ticks div 2"
    if "?ticks div 2 < 2 ^ LENGTH('n)"
  proof -
    from that have "unat (delay_ticks fp c div 2) < 2 ^ LENGTH('n)"
      by (simp only: unat_half_word)
    then have "unat (ucast (delay_ticks fp c div 2) :: 'n word) = ?ticks div 2"
      by (simp only: unat_stored_duration unat_half_word)
    then show ?thesis by (simp add: sym make_delay_symbol_def)
  qed
  have total_odd: "odd ?ticks \<Longrightarrow> ?ticks div 2 + ?ticks div 2 = ?ticks - 1"
    by presburger
  have total_even: "even ?ticks \<Longrightarrow> ?ticks div 2 + ?ticks div 2 = ?ticks"
    by presburger
  show ?thesis
    unfolding Let_def
  proof (intro conjI impI)
    assume fits: "?ticks div 2 < 2 ^ LENGTH('n)"
    note h = halves [OF fits]
    show "unat (duration0 (dshot_delay_symbol enc)) = ?ticks div 2" using h by simp
    show "unat (duration1 (dshot_delay_symbol enc)) = ?ticks div 2" using h by simp
    show "unat (duration0 (dshot_delay_symbol enc)) + unat (duration1 (dshot_delay_symbol enc))
            = 2 * (?ticks div 2)"
      using h by simp
    show "unat (duration0 (dshot_delay_symbol enc)) + unat (duration1 (dshot_delay_symbol enc))
            = ?ticks - 1" if "odd ?ticks"
      using h total_odd [OF that] by simp
    show "unat (duration0 (dshot_delay_symbol enc)) + unat (duration1 (dshot_delay_symbol enc))
            = ?ticks" if "even ?ticks"
      using h total_even [OF that] by simp
  next
    assume "0 \<le> delay_ticks_double fp c \<and> delay_ticks_double fp c < 2 ^ 32"
    then show "?ticks = nat \<lfloor>delay_ticks_double fp c\<rfloor>" by (rule trunc)
  next
    assume "ieee_754 fp \<and> to_double fp 0 = 0 \<and> ?exact \<le> 2 ^ 32 - 1"
    then show "?ticks = nat \<lfloor>?exact\<rfloor> \<or> ?ticks + 1 = nat \<lfloor>?exact\<rfloor>" by (rule near)
  next
    show "unat (duration0 (dshot_delay_symbol enc)) = (?ticks div 2) mod 2 ^ LENGTH('n)"
      by (rule stored)
  qed (simp_all add: shape)
qed

lemma binary64_near_4_1_ieee: "ieee_754 binary64_near_4_1"
  unfolding ieee_754_def rounds_to_nearest_def binary64_near_4_1_def
  by (auto simp add: abs_if)

lemma clock_4_1_double:
  "delay_ticks_double binary64_near_4_1 clock_4_1_config = 410 - 1 / 2 ^ 44"
  by (simp add: delay_ticks_double_def binary64_near_4_1_def clock_4_1_config_def)

lemma clock_4_1_ticks: "unat (delay_ticks binary64_near_4_1 clock_4_1_config) = 409"
proof -
  have "unat (trunc_uint (410 - 1 / 2 ^ 44)) = 409"
    using trunc_uint_between(2) [of 409 "410 - 1 / 2 ^ 44"] by simp
  then show ?thesis by (simp only: delay_ticks_def clock_4_1_double)
qed

lemma clock_4_1_exact:
  "nat \<lfloor>real (unat (resolution clock_4_1_config)) / 1000000
     * real (unat (post_delay_us clock_4_1_config))\<rfloor> = 410"
  by (simp add: clock_4_1_config_def)

lemma long_gap_ticks: "unat (delay_ticks exact_arith long_gap_config) = 80000"
  by (simp add: delay_ticks_def delay_ticks_double_def exact_arith_def long_gap_config_def
      trunc_uint_def)

lemma long_gap_half:
  "unat (duration0 (make_delay_symbol exact_arith long_gap_config :: 15 word rmt_symbol_word_t))
     = 7232"
  "unat (duration1 (make_delay_symbol exact_arith long_gap_config :: 15 word rmt_symbol_word_t))
     = 7232"
  by (simp_all add: make_delay_symbol_def delay_ticks_def delay_ticks_double_def exact_arith_def
      long_gap_config_def trunc_uint_def)

theorem gap_symbol_is_two_equal_halves_witness:
  "unat (delay_ticks exact_arith
      \<lparr>resolution = 5000000, baud_rate = 600000, post_delay_us = 25,
         config_bidirectional = False\<rparr>) = 125
   \<and> unat (duration0 (make_delay_symbol exact_arith
        \<lparr>resolution = 5000000, baud_rate = 600000, post_delay_us = 25,
           config_bidirectional = False\<rparr> :: 15 word rmt_symbol_word_t)) = 62
   \<and> unat (duration1 (make_delay_symbol exact_arith
        \<lparr>resolution = 5000000, baud_rate = 600000, post_delay_us = 25,
           config_bidirectional = False\<rparr> :: 15 word rmt_symbol_word_t)) = 62
   \<and> unat (delay_ticks binary64_near_4_1 clock_4_1_config) + 1
       = nat \<lfloor>real (unat (resolution clock_4_1_config)) / 1000000
               * real (unat (post_delay_us clock_4_1_config))\<rfloor>
   \<and> unat (duration0 (make_delay_symbol binary64_near_4_1 clock_4_1_config
        :: 15 word rmt_symbol_word_t)) = 204
   \<and> unat (duration0 (make_delay_symbol exact_arith long_gap_config
        :: 15 word rmt_symbol_word_t)) = 40000 mod 2 ^ 15"
proof -
  let ?c = "\<lparr>resolution = 5000000, baud_rate = 600000, post_delay_us = 25,
             config_bidirectional = False\<rparr>"
  let ?drv = "scripted_driver True None None :: (script, 15 word) rmt_driver"
  have new: "ret_encoder (rmt_new_dshot_esc_encoder fp ?drv (Some c) True)
      = Some (\<lparr>bytes_encoder = scripted_encoder, copy_encoder = scripted_encoder,
              dshot_delay_symbol = make_delay_symbol fp c,
              state = 0, bidirectional = config_bidirectional c\<rparr>
              :: (script, 15 word) dshot_rmt_encoder_t)" for fp c
    by (simp add: rmt_new_dshot_esc_encoder_def scripted_driver_def Let_def)
  have real: "delay_ticks_double exact_arith ?c = 125"
    by (simp add: delay_ticks_double_def exact_arith_def)
  have ticks: "unat (delay_ticks exact_arith ?c) = 125"
    by (simp add: delay_ticks_def real trunc_uint_def)
  have odd_gap: "unat (duration0 (make_delay_symbol exact_arith ?c :: 15 word rmt_symbol_word_t)) = 62
      \<and> unat (duration1 (make_delay_symbol exact_arith ?c :: 15 word rmt_symbol_word_t)) = 62"
    using gap_symbol_is_two_equal_halves [OF new [of exact_arith ?c]] real ticks
    by (simp add: Let_def)
  have near: "unat (delay_ticks binary64_near_4_1 clock_4_1_config) + 1
       = nat \<lfloor>real (unat (resolution clock_4_1_config)) / 1000000
               * real (unat (post_delay_us clock_4_1_config))\<rfloor>
      \<and> unat (duration0 (make_delay_symbol binary64_near_4_1 clock_4_1_config
            :: 15 word rmt_symbol_word_t)) = 204"
    using gap_symbol_is_two_equal_halves [OF new [of binary64_near_4_1 clock_4_1_config]]
      binary64_near_4_1_ieee clock_4_1_ticks clock_4_1_exact
    by (simp add: Let_def)
  have wrapped: "unat (duration0 (make_delay_symbol exact_arith long_gap_config
        :: 15 word rmt_symbol_word_t)) = 40000 mod 2 ^ 15"
    using gap_symbol_is_two_equal_halves [OF new [of exact_arith long_gap_config]] long_gap_ticks
    by (auto simp add: Let_def)
  show ?thesis
    using ticks odd_gap near wrapped by blast
qed

text \<open>
  Where C8 as first stated fails. With the 15-bit duration field of the driver, a gap of
  2 ms at 40 MHz is 80000 ticks, and each half of the symbol holds 7232 ticks, the low
  15 bits of 40000. With a clock of 4.1 MHz and a gap of 100 microseconds, the exact
  product is 410, and the tick count computed in binary64 is 409.
\<close>

theorem gap_symbol_counterexample:
  "ret_encoder (rmt_new_dshot_esc_encoder exact_arith (scripted_driver True None None)
       (Some long_gap_config) True)
     = Some (\<lparr>bytes_encoder = scripted_encoder, copy_encoder = scripted_encoder,
             dshot_delay_symbol = make_delay_symbol exact_arith long_gap_config,
             state = 0, bidirectional = False\<rparr> :: (script, 15 word) dshot_rmt_encoder_t)
   \<and> unat (delay_ticks exact_arith long_gap_config) = 80000
   \<and> unat (duration0 (make_delay_symbol exact_arith long_gap_config
        :: 15 word rmt_symbol_word_t)) = 7232
   \<and> unat (duration1 (make_delay_symbol exact_arith long_gap_config
        :: 15 word rmt_symbol_word_t)) = 7232
   \<and> unat (duration0 (make_delay_symbol exact_arith long_gap_config
        :: 15 word rmt_symbol_word_t)) \<noteq> unat (delay_ticks exact_arith long_gap_config) div 2
   \<and> ieee_754 binary64_near_4_1
   \<and> nat \<lfloor>real (unat (resolution clock_4_1_config)) / 1000000
            * real (unat (post_delay_us clock_4_1_config))\<rfloor> = 410
   \<and> unat (delay_ticks binary64_near_4_1 clock_4_1_config) = 409"
proof -
  have new: "ret_encoder (rmt_new_dshot_esc_encoder exact_arith (scripted_driver True None None)
       (Some long_gap_config) True)
     = Some (\<lparr>bytes_encoder = scripted_encoder, copy_encoder = scripted_encoder,
             dshot_delay_symbol = make_delay_symbol exact_arith long_gap_config,
             state = 0, bidirectional = False\<rparr> :: (script, 15 word) dshot_rmt_encoder_t)"
    by (simp add: rmt_new_dshot_esc_encoder_def scripted_driver_def long_gap_config_def Let_def)
  have differ: "unat (duration0 (make_delay_symbol exact_arith long_gap_config
        :: 15 word rmt_symbol_word_t)) \<noteq> unat (delay_ticks exact_arith long_gap_config) div 2"
    by (simp add: long_gap_half long_gap_ticks)
  show ?thesis
    using new differ long_gap_ticks long_gap_half binary64_near_4_1_ieee clock_4_1_exact
      clock_4_1_ticks
    by blast
qed

end
